theory Spec2Isabelle
  imports Main
begin

section \<open>The syntax trees the registry reads\<close>

text \<open>
  The registry of \<^verbatim>\<open>packages.go\<close> reads only a few fields of Go's \<^verbatim>\<open>go/ast\<close> nodes: a
  file's package clause, its imports and its top-level declarations; of a declaration
  whether it is a \<^verbatim>\<open>GenDecl\<close> with token \<^verbatim>\<open>TYPE\<close>; of a spec whether it is a
  \<^verbatim>\<open>TypeSpec\<close>, with its name and whether its type is a bare identifier. Every other
  node shape is one opaque constructor.

  Syntax nodes are never mutated by the registry, so a pointer to a node is modelled by
  the node. A \<^verbatim>\<open>*ast.File\<close> is also a map key, compared by address: the field
  \<open>file_ptr\<close> stands for the address, so that two files with equal contents are still
  two keys.
\<close>

datatype ast_Expr = Ident string | OtherExpr

record ast_TypeSpec =
  ts_Name :: string
  ts_Type :: ast_Expr

datatype ast_Spec = TypeSpec_of ast_TypeSpec | OtherSpec

datatype token = token_IMPORT | token_CONST | token_TYPE | token_VAR

datatype ast_Decl = GenDecl token "ast_Spec list" | OtherDecl

text \<open>\<open>imp_Name\<close> is \<^verbatim>\<open>imp.Name\<close> (\<open>None\<close> for nil, else \<^verbatim>\<open>imp.Name.Name\<close>);
  \<open>imp_Path\<close> is \<^verbatim>\<open>imp.Path.Value\<close>, the literal with its quotes.\<close>

record ast_ImportSpec =
  imp_Name :: "string option"
  imp_Path :: string

record ast_File =
  file_ptr :: nat
  file_Name :: string
  file_Imports :: "ast_ImportSpec list"
  file_Decls :: "ast_Decl list"

section \<open>The registry\<close>

record TypeSpecDef =
  PkgPath :: string
  File :: ast_File
  TypeSpec :: ast_TypeSpec

record AstFileInfo =
  info_File :: ast_File
  Path :: string
  PackagePath :: string

text \<open>A \<^verbatim>\<open>PackageDefinitions\<close> is only ever built by \<open>CollectAstFile\<close>, with both of
  its maps made; the registry holds no nil pointer to one.\<close>

record PackageDefinitions =
  pd_Name :: string
  Files :: "string \<rightharpoonup> ast_File"
  TypeDefinitions :: "string \<rightharpoonup> TypeSpecDef"

text \<open>The three maps of the registry may each be nil (\<open>None\<close>): the source tests for it.
  Reading a nil map finds nothing; writing to one panics.\<close>

record PackagesDefinitions =
  files :: "(ast_File \<rightharpoonup> AstFileInfo) option"
  packages :: "(string \<rightharpoonup> PackageDefinitions) option"
  uniqueDefinitions :: "(string \<rightharpoonup> TypeSpecDef) option"

datatype spec_Schema = PrimitiveSchema string

record Schema =
  schema_PkgPath :: string
  schema_Name :: string
  schema_Schema :: spec_Schema

text \<open>Modelled from the spec: the primitive-type classification table and the canonical-name
  mapping (\<^verbatim>\<open>IsGolangPrimitiveType\<close>, \<^verbatim>\<open>TransToValidSchemeType\<close>) are declared outside
  \<^verbatim>\<open>packages.go\<close>; the spec has them supplied by the host, so they are a parameter.\<close>

record host =
  IsGolangPrimitiveType :: "string \<Rightarrow> bool"
  TransToValidSchemeType :: "string \<Rightarrow> string"

text \<open>Modelled from the spec: \<^verbatim>\<open>fullTypeName\<close>, \<^verbatim>\<open>TypeSpecDef.FullName\<close> and
  \<^verbatim>\<open>TypeSpecDef.Name\<close> are declared outside \<^verbatim>\<open>packages.go\<close>. The spec keys the global index
  by (package short name, type name), written short-name.typename, the short name being
  that of the declaring unit; the name is the bare declared name.\<close>

definition fullTypeName :: "string \<Rightarrow> string \<Rightarrow> string" where
  "fullTypeName pkgName typeName = pkgName @ ''.'' @ typeName"

definition Name :: "TypeSpecDef \<Rightarrow> string" where
  "Name t = ts_Name (TypeSpec t)"

definition FullName :: "TypeSpecDef \<Rightarrow> string" where
  "FullName t = fullTypeName (file_Name (File t)) (ts_Name (TypeSpec t))"

subsection \<open>Go's string functions, as far as the source calls them\<close>

text \<open>\<^verbatim>\<open>strings.Split(s, ".")\<close> with a one-byte separator: \<open>n\<close> separators give \<open>n + 1\<close>
  parts, and the empty string gives one empty part.\<close>

fun strings_Split :: "string \<Rightarrow> char \<Rightarrow> string list" where
  "strings_Split [] sep = [[]]"
| "strings_Split (c # cs) sep =
     (if c = sep then [] # strings_Split cs sep
      else (case strings_Split cs sep of
              [] \<Rightarrow> [[c]]
            | p # ps \<Rightarrow> (c # p) # ps))"

definition strings_ContainsRune :: "string \<Rightarrow> char \<Rightarrow> bool" where
  "strings_ContainsRune s r = (r \<in> set s)"

text \<open>\<^verbatim>\<open>strings.Trim(s, cutset)\<close>: all leading and trailing bytes of the cutset go.\<close>

definition strings_Trim :: "string \<Rightarrow> string \<Rightarrow> string" where
  "strings_Trim s cutset =
     rev (dropWhile (\<lambda>c. c \<in> set cutset) (rev (dropWhile (\<lambda>c. c \<in> set cutset) s)))"

definition dquote :: string where
  "dquote = [CHR 0x22]"

subsection \<open>Construction and collection\<close>

definition NewPackagesDefinitions :: PackagesDefinitions where
  "NewPackagesDefinitions =
     \<lparr>files = Some Map.empty, packages = Some Map.empty, uniqueDefinitions = Some Map.empty\<rparr>"

text \<open>The zero value of the struct: all three maps nil.\<close>

definition zero_PackagesDefinitions :: PackagesDefinitions where
  "zero_PackagesDefinitions = \<lparr>files = None, packages = None, uniqueDefinitions = None\<rparr>"

definition made :: "('k \<rightharpoonup> 'v) option \<Rightarrow> ('k \<rightharpoonup> 'v)" where
  "made m = (case m of None \<Rightarrow> Map.empty | Some f \<Rightarrow> f)"

definition CollectAstFile ::
  "string \<Rightarrow> string \<Rightarrow> ast_File \<Rightarrow> PackagesDefinitions \<Rightarrow> PackagesDefinitions" where
  "CollectAstFile packageDir path astFile pkgs =
     (let pkgs1 = pkgs\<lparr>files := Some ((made (files pkgs))
                    (astFile \<mapsto> \<lparr>info_File = astFile, Path = path, PackagePath = packageDir\<rparr>))\<rparr>
      in if length packageDir = 0 then pkgs1
         else
           (let ps = made (packages pkgs1)
            in (case ps packageDir of
                  Some pd \<Rightarrow>
                    pkgs1\<lparr>packages := Some (ps(packageDir \<mapsto> pd\<lparr>Files := (Files pd)(path \<mapsto> astFile)\<rparr>))\<rparr>
                | None \<Rightarrow>
                    pkgs1\<lparr>packages := Some (ps(packageDir \<mapsto>
                      \<lparr>pd_Name = file_Name astFile, Files = [path \<mapsto> astFile],
                       TypeDefinitions = Map.empty\<rparr>))\<rparr>)))"

subsection \<open>ParseTypes\<close>

text \<open>How a call of \<open>ParseTypes\<close> ends: with the map of parsed schemas, with the error it
  returns, or with the panic of a nil dereference. The map of schemas is keyed by freshly
  allocated pointers, so every insertion adds an entry: a list of pairs.\<close>

datatype parse_result =
  Parsed "(TypeSpecDef \<times> Schema) list"
| ConfigurationError string
| NilDereference

text \<open>A \<^verbatim>\<open>for ... range\<close> loop over a list whose body either goes on with a new state
  (\<open>Inr\<close>, which is also what \<^verbatim>\<open>continue\<close> does) or leaves the function (\<open>Inl\<close>).\<close>

fun range_loop :: "('a \<Rightarrow> 's \<Rightarrow> 'r + 's) \<Rightarrow> 'a list \<Rightarrow> 's \<Rightarrow> 'r + 's" where
  "range_loop body [] s = Inr s"
| "range_loop body (x # xs) s =
     (case body x s of Inl r \<Rightarrow> Inl r | Inr s' \<Rightarrow> range_loop body xs s')"

text \<open>Line 113: \<^verbatim>\<open>pkgs.packages[PkgPath].TypeDefinitions[Name()] = typeSpecDef\<close>. A nil
  registry or a path with no record gives a nil \<^verbatim>\<open>*PackageDefinitions\<close>, and the field
  access panics.\<close>

definition write_local ::
  "TypeSpecDef \<Rightarrow> PackagesDefinitions \<Rightarrow> (parse_result \<times> PackagesDefinitions) + PackagesDefinitions" where
  "write_local typeSpecDef pkgs =
     (case packages pkgs of
        None \<Rightarrow> Inl (NilDereference, pkgs)
      | Some ps \<Rightarrow>
          (case ps (PkgPath typeSpecDef) of
             None \<Rightarrow> Inl (NilDereference, pkgs)
           | Some pd \<Rightarrow>
               Inr (pkgs\<lparr>packages := Some (ps(PkgPath typeSpecDef \<mapsto>
                      pd\<lparr>TypeDefinitions := (TypeDefinitions pd)(Name typeSpecDef \<mapsto> typeSpecDef)\<rparr>))\<rparr>)))"

text \<open>Lines 97 to 113, what one type declaration does to the registry.\<close>

definition register_def ::
  "TypeSpecDef \<Rightarrow> PackagesDefinitions \<Rightarrow> (parse_result \<times> PackagesDefinitions) + PackagesDefinitions" where
  "register_def typeSpecDef pkgs =
     (case uniqueDefinitions pkgs of
        None \<Rightarrow> Inl (ConfigurationError ''could not parse types, as unique definitions were nil'', pkgs)
      | Some uniq \<Rightarrow>
          (let fullName = FullName typeSpecDef
           in (case uniq fullName of
                 Some anotherTypeDef \<Rightarrow>
                   if PkgPath typeSpecDef = PkgPath anotherTypeDef then Inr pkgs
                   else write_local typeSpecDef
                          (pkgs\<lparr>uniqueDefinitions := Some (uniq(fullName := None))\<rparr>)
               | None \<Rightarrow>
                   write_local typeSpecDef
                     (pkgs\<lparr>uniqueDefinitions := Some (uniq(fullName \<mapsto> typeSpecDef))\<rparr>))))"

definition new_TypeSpecDef :: "AstFileInfo \<Rightarrow> ast_File \<Rightarrow> ast_TypeSpec \<Rightarrow> TypeSpecDef" where
  "new_TypeSpecDef info astFile typeSpec =
     \<lparr>PkgPath = PackagePath info, File = astFile, TypeSpec = typeSpec\<rparr>"

text \<open>Lines 89 to 95: the schema of a declaration whose type is a primitive identifier.\<close>

definition primitive_schema ::
  "host \<Rightarrow> ast_File \<Rightarrow> TypeSpecDef \<Rightarrow> (TypeSpecDef \<times> Schema) list \<Rightarrow> (TypeSpecDef \<times> Schema) list" where
  "primitive_schema H astFile typeSpecDef parsedSchemas =
     (case ts_Type (TypeSpec typeSpecDef) of
        Ident n \<Rightarrow>
          if IsGolangPrimitiveType H n
          then parsedSchemas @
                 [(typeSpecDef,
                   \<lparr>schema_PkgPath = PkgPath typeSpecDef, schema_Name = file_Name astFile,
                    schema_Schema = PrimitiveSchema (TransToValidSchemeType H n)\<rparr>)]
          else parsedSchemas
      | OtherExpr \<Rightarrow> parsedSchemas)"

type_synonym parse_state = "(TypeSpecDef \<times> Schema) list \<times> PackagesDefinitions"

definition def_body ::
  "host \<Rightarrow> TypeSpecDef \<Rightarrow> parse_state \<Rightarrow> (parse_result \<times> PackagesDefinitions) + parse_state" where
  "def_body H typeSpecDef st =
     (case st of (parsedSchemas, pkgs) \<Rightarrow>
        (let parsedSchemas' = primitive_schema H (File typeSpecDef) typeSpecDef parsedSchemas
         in (case register_def typeSpecDef pkgs of
               Inl r \<Rightarrow> Inl r
             | Inr pkgs' \<Rightarrow> Inr (parsedSchemas', pkgs'))))"

definition spec_body ::
  "host \<Rightarrow> AstFileInfo \<Rightarrow> ast_File \<Rightarrow> ast_Spec \<Rightarrow> parse_state \<Rightarrow>
    (parse_result \<times> PackagesDefinitions) + parse_state" where
  "spec_body H info astFile astSpec st =
     (case astSpec of
        TypeSpec_of typeSpec \<Rightarrow> def_body H (new_TypeSpecDef info astFile typeSpec) st
      | OtherSpec \<Rightarrow> Inr st)"

definition decl_body ::
  "host \<Rightarrow> AstFileInfo \<Rightarrow> ast_File \<Rightarrow> ast_Decl \<Rightarrow> parse_state \<Rightarrow>
    (parse_result \<times> PackagesDefinitions) + parse_state" where
  "decl_body H info astFile astDeclaration st =
     (case astDeclaration of
        GenDecl tok specs \<Rightarrow>
          if tok \<noteq> token_TYPE then Inr st
          else range_loop (spec_body H info astFile) specs st
      | OtherDecl \<Rightarrow> Inr st)"

text \<open>The outer loop ranges over the map \<^verbatim>\<open>pkgs.files\<close>, in an order Go leaves open:
  \<open>order\<close> is the sequence of keys the range produces. A key the map does not hold is
  never visited; ranging over a nil map visits nothing.\<close>

definition file_body ::
  "host \<Rightarrow> (ast_File \<rightharpoonup> AstFileInfo) \<Rightarrow> ast_File \<Rightarrow> parse_state \<Rightarrow>
    (parse_result \<times> PackagesDefinitions) + parse_state" where
  "file_body H fs astFile st =
     (case fs astFile of
        None \<Rightarrow> Inr st
      | Some info \<Rightarrow> range_loop (decl_body H info astFile) (file_Decls astFile) st)"

definition ParseTypes ::
  "host \<Rightarrow> ast_File list \<Rightarrow> PackagesDefinitions \<Rightarrow> parse_result \<times> PackagesDefinitions" where
  "ParseTypes H order pkgs =
     (case range_loop (file_body H (made (files pkgs))) order ([], pkgs) of
        Inl r \<Rightarrow> r
      | Inr (parsedSchemas, pkgs') \<Rightarrow> (Parsed parsedSchemas, pkgs'))"

text \<open>\<open>order\<close> is a possible order of the range over \<^verbatim>\<open>pkgs.files\<close>: every key once.\<close>

definition range_order :: "PackagesDefinitions \<Rightarrow> ast_File list \<Rightarrow> bool" where
  "range_order pkgs order = (distinct order \<and> set order = dom (made (files pkgs)))"

subsection \<open>Resolution\<close>

datatype 'a go = Ret 'a | Panic

definition findTypeSpec :: "PackagesDefinitions \<Rightarrow> string \<Rightarrow> string \<Rightarrow> TypeSpecDef option" where
  "findTypeSpec pkgs pkgPath typeName =
     (case packages pkgs of
        None \<Rightarrow> None
      | Some ps \<Rightarrow>
          (case ps pkgPath of
             Some pd \<Rightarrow>
               (case TypeDefinitions pd typeName of
                  Some typeSpec \<Rightarrow> Some typeSpec
                | None \<Rightarrow> None)
           | None \<Rightarrow> None))"

text \<open>The first loop of \<open>findPackagePathFromImports\<close>: \<open>Inl\<close> is the path it returns,
  \<open>Inr\<close> the flag \<^verbatim>\<open>hasAnonymousPkg\<close> when the loop runs to its end.\<close>

fun match_imports ::
  "PackagesDefinitions \<Rightarrow> string \<Rightarrow> ast_ImportSpec list \<Rightarrow> bool \<Rightarrow> string + bool" where
  "match_imports pkgs pkgName [] hasAnonymousPkg = Inr hasAnonymousPkg"
| "match_imports pkgs pkgName (imp # imps) hasAnonymousPkg =
     (case imp_Name imp of
        Some n \<Rightarrow>
          if n = pkgName then Inl (strings_Trim (imp_Path imp) dquote)
          else if n = ''_'' then match_imports pkgs pkgName imps True
          else match_imports pkgs pkgName imps hasAnonymousPkg
      | None \<Rightarrow>
          (case packages pkgs of
             Some ps \<Rightarrow>
               (let path = strings_Trim (imp_Path imp) dquote
                in (case ps path of
                      Some pd \<Rightarrow>
                        if pd_Name pd = pkgName then Inl path
                        else match_imports pkgs pkgName imps hasAnonymousPkg
                    | None \<Rightarrow> match_imports pkgs pkgName imps hasAnonymousPkg))
           | None \<Rightarrow> match_imports pkgs pkgName imps hasAnonymousPkg))"

text \<open>The second loop, run only with a registry that is not nil.\<close>

fun match_anonymous ::
  "(string \<rightharpoonup> PackageDefinitions) \<Rightarrow> string \<Rightarrow> ast_ImportSpec list \<Rightarrow> string option" where
  "match_anonymous ps pkgName [] = None"
| "match_anonymous ps pkgName (imp # imps) =
     (case imp_Name imp of
        None \<Rightarrow> match_anonymous ps pkgName imps
      | Some n \<Rightarrow>
          if n = ''_'' then
            (let path = strings_Trim (imp_Path imp) dquote
             in (case ps path of
                   Some pd \<Rightarrow>
                     if pd_Name pd = pkgName then Some path
                     else match_anonymous ps pkgName imps
                 | None \<Rightarrow> match_anonymous ps pkgName imps))
          else match_anonymous ps pkgName imps)"

text \<open>\<^verbatim>\<open>strings.Split(pkgName, ".")[0]\<close>: the index is in range for every string.\<close>

definition first_part :: "string \<Rightarrow> string" where
  "first_part s = (case strings_Split s CHR ''.'' of [] \<Rightarrow> [] | p # ps \<Rightarrow> p)"

definition findPackagePathFromImports ::
  "PackagesDefinitions \<Rightarrow> string \<Rightarrow> ast_File option \<Rightarrow> string" where
  "findPackagePathFromImports pkgs pkgName file =
     (case file of
        None \<Rightarrow> ''''
      | Some f \<Rightarrow>
          (let pkgName' = (if strings_ContainsRune pkgName CHR ''.'' then first_part pkgName
                           else pkgName)
           in (case match_imports pkgs pkgName' (file_Imports f) False of
                 Inl path \<Rightarrow> path
               | Inr hasAnonymousPkg \<Rightarrow>
                   (case packages pkgs of
                      Some ps \<Rightarrow>
                        if hasAnonymousPkg then
                          (case match_anonymous ps pkgName' (file_Imports f) of
                             Some path \<Rightarrow> path
                           | None \<Rightarrow> '''')
                        else ''''
                    | None \<Rightarrow> ''''))))"

text \<open>\<^verbatim>\<open>if file == nil && file.Imports == nil\<close> reads a field of a nil file: a panic.\<close>

definition isAliasPkgName :: "ast_File option \<Rightarrow> string \<Rightarrow> bool go" where
  "isAliasPkgName file pkgName =
     (case file of
        None \<Rightarrow> Panic
      | Some f \<Rightarrow> Ret (list_ex (\<lambda>pkg. imp_Name pkg = Some pkgName) (file_Imports f)))"

text \<open>The last loop of \<open>FindTypeSpec\<close>, over the dot imports.\<close>

fun find_dot_import ::
  "PackagesDefinitions \<Rightarrow> string \<Rightarrow> ast_ImportSpec list \<Rightarrow> TypeSpecDef option" where
  "find_dot_import pkgs typeName [] = None"
| "find_dot_import pkgs typeName (imp # imps) =
     (if imp_Name imp = Some ''.'' then
        (case findTypeSpec pkgs (strings_Trim (imp_Path imp) dquote) typeName of
           Some typeDef \<Rightarrow> Some typeDef
         | None \<Rightarrow> find_dot_import pkgs typeName imps)
      else find_dot_import pkgs typeName imps)"

text \<open>\<^verbatim>\<open>pkgs.files[file].PackagePath\<close>: a file the store does not hold gives a nil
  \<^verbatim>\<open>*AstFileInfo\<close>, and the field access panics.\<close>

definition file_PackagePath :: "PackagesDefinitions \<Rightarrow> ast_File \<Rightarrow> string go" where
  "file_PackagePath pkgs file =
     (case made (files pkgs) file of None \<Rightarrow> Panic | Some info \<Rightarrow> Ret (PackagePath info))"

text \<open>Lines 216 to 233, after the shortcut: from the qualifier to the definition.\<close>

definition find_qualified ::
  "PackagesDefinitions \<Rightarrow> string \<Rightarrow> string \<Rightarrow> ast_File \<Rightarrow> TypeSpecDef option go" where
  "find_qualified pkgs part0 part1 file =
     (let pkgPath = findPackagePathFromImports pkgs part0 (Some file)
      in (case (if length pkgPath = 0 \<and> part0 = file_Name file then file_PackagePath pkgs file
                else Ret pkgPath) of
            Panic \<Rightarrow> Panic
          | Ret pkgPath \<Rightarrow>
              if pkgPath = '''' then
                (case made (packages pkgs) (''pkg/'' @ part0) of
                   None \<Rightarrow> Ret (findTypeSpec pkgs pkgPath part1)
                 | Some pkgDefinition \<Rightarrow>
                     (case TypeDefinitions pkgDefinition part1 of
                        Some typeDef \<Rightarrow> Ret (Some typeDef)
                      | None \<Rightarrow> Ret (findTypeSpec pkgs pkgPath part1)))
              else Ret (findTypeSpec pkgs pkgPath part1)))"

definition FindTypeSpec ::
  "host \<Rightarrow> string \<Rightarrow> ast_File option \<Rightarrow> PackagesDefinitions \<Rightarrow> TypeSpecDef option go" where
  "FindTypeSpec H typeName file pkgs =
     (if IsGolangPrimitiveType H typeName then Ret None
      else
        (case file of
           None \<Rightarrow> Ret (made (uniqueDefinitions pkgs) typeName)
         | Some f \<Rightarrow>
             if strings_ContainsRune typeName CHR ''.'' then
               (case strings_Split typeName CHR ''.'' of
                  part0 # part1 # rest \<Rightarrow>
                    (case isAliasPkgName (Some f) part0 of
                       Panic \<Rightarrow> Panic
                     | Ret alias \<Rightarrow>
                         (case (if \<not> alias then made (uniqueDefinitions pkgs) typeName else None) of
                            Some typeDef \<Rightarrow> Ret (Some typeDef)
                          | None \<Rightarrow> find_qualified pkgs part0 part1 f))
                | _ \<Rightarrow> Panic)
             else
               (case made (uniqueDefinitions pkgs) (fullTypeName (file_Name f) typeName) of
                  Some typeDef \<Rightarrow> Ret (Some typeDef)
                | None \<Rightarrow>
                    (case file_PackagePath pkgs f of
                       Panic \<Rightarrow> Panic
                     | Ret pkgPath \<Rightarrow>
                         (case findTypeSpec pkgs pkgPath typeName of
                            Some typeDef \<Rightarrow> Ret (Some typeDef)
                          | None \<Rightarrow> Ret (find_dot_import pkgs typeName (file_Imports f)))))))"

section \<open>Notions the properties are stated with\<close>

subsection \<open>The declarations a pass visits\<close>

text \<open>The type specs the three nested loops of \<open>ParseTypes\<close> reach, in the order they
  reach them, and the \<open>TypeSpecDef\<close> built for each.\<close>

definition spec_specs :: "ast_Spec \<Rightarrow> ast_TypeSpec list" where
  "spec_specs astSpec = (case astSpec of TypeSpec_of typeSpec \<Rightarrow> [typeSpec] | OtherSpec \<Rightarrow> [])"

definition decl_specs :: "ast_Decl \<Rightarrow> ast_TypeSpec list" where
  "decl_specs astDeclaration =
     (case astDeclaration of
        GenDecl tok specs \<Rightarrow> if tok \<noteq> token_TYPE then [] else concat (map spec_specs specs)
      | OtherDecl \<Rightarrow> [])"

definition file_specs :: "ast_File \<Rightarrow> ast_TypeSpec list" where
  "file_specs astFile = concat (map decl_specs (file_Decls astFile))"

definition file_defs :: "(ast_File \<rightharpoonup> AstFileInfo) \<Rightarrow> ast_File \<Rightarrow> TypeSpecDef list" where
  "file_defs fs astFile =
     (case fs astFile of
        None \<Rightarrow> []
      | Some info \<Rightarrow> map (new_TypeSpecDef info astFile) (file_specs astFile))"

definition harvest_defs :: "PackagesDefinitions \<Rightarrow> ast_File list \<Rightarrow> TypeSpecDef list" where
  "harvest_defs pkgs order = concat (map (file_defs (made (files pkgs))) order)"

definition harvest_schemas ::
  "host \<Rightarrow> TypeSpecDef list \<Rightarrow> (TypeSpecDef \<times> Schema) list \<Rightarrow> (TypeSpecDef \<times> Schema) list" where
  "harvest_schemas H ds parsedSchemas = fold (\<lambda>d. primitive_schema H (File d) d) ds parsedSchemas"

text \<open>The registry a step leaves behind, however the step ends.\<close>

definition registry_after ::
  "(parse_result \<times> PackagesDefinitions) + PackagesDefinitions \<Rightarrow> PackagesDefinitions" where
  "registry_after r = (case r of Inl (res, pkgs) \<Rightarrow> pkgs | Inr pkgs \<Rightarrow> pkgs)"

subsection \<open>Registries the exported operations build\<close>

text \<open>A registry starts as \<open>NewPackagesDefinitions\<close> or as the zero value, and changes by
  \<open>CollectAstFile\<close> and by a \<open>ParseTypes\<close> that did not panic.\<close>

inductive reachable :: "PackagesDefinitions \<Rightarrow> bool" where
  new: "reachable NewPackagesDefinitions"
| zero: "reachable zero_PackagesDefinitions"
| collect: "reachable pkgs \<Longrightarrow> reachable (CollectAstFile packageDir path astFile pkgs)"
| parse: "reachable pkgs \<Longrightarrow> range_order pkgs order \<Longrightarrow> ParseTypes H order pkgs = (res, pkgs')
    \<Longrightarrow> res \<noteq> NilDereference \<Longrightarrow> reachable pkgs'"

text \<open>Every entry of the global index is stored under its own full name.\<close>

definition index_keyed :: "(string \<rightharpoonup> TypeSpecDef) \<Rightarrow> bool" where
  "index_keyed uniq = (\<forall>k e. uniq k = Some e \<longrightarrow> FullName e = k)"

text \<open>What holds of every reachable registry: no record under the empty path, a record
  for every non-empty package path of the store, and index entries that are stored under
  their full name and owned by a package with a record.\<close>

definition wf_registry :: "PackagesDefinitions \<Rightarrow> bool" where
  "wf_registry pkgs =
     ('''' \<notin> dom (made (packages pkgs)) \<and>
      (\<forall>f info. made (files pkgs) f = Some info \<longrightarrow> PackagePath info \<noteq> '''' \<longrightarrow>
         PackagePath info \<in> dom (made (packages pkgs))) \<and>
      index_keyed (made (uniqueDefinitions pkgs)) \<and>
      (\<forall>k e. made (uniqueDefinitions pkgs) k = Some e \<longrightarrow>
         PkgPath e \<in> dom (made (packages pkgs))))"

subsection \<open>Concrete units\<close>

definition ex_host :: host where
  "ex_host =
     \<lparr>IsGolangPrimitiveType = (\<lambda>n. n \<in> set [''bool'', ''int'', ''string'']),
      TransToValidSchemeType = (\<lambda>n. if n = ''int'' then ''integer''
                                     else if n = ''bool'' then ''boolean'' else n)\<rparr>"

definition type_decl :: "string \<Rightarrow> ast_Expr \<Rightarrow> ast_Decl" where
  "type_decl n t = GenDecl token_TYPE [TypeSpec_of \<lparr>ts_Name = n, ts_Type = t\<rparr>]"

definition unnamed_import :: "string \<Rightarrow> ast_ImportSpec" where
  "unnamed_import p = \<lparr>imp_Name = None, imp_Path = dquote @ p @ dquote\<rparr>"

definition named_import :: "string \<Rightarrow> string \<Rightarrow> ast_ImportSpec" where
  "named_import n p = \<lparr>imp_Name = Some n, imp_Path = dquote @ p @ dquote\<rparr>"

text \<open>Two packages \<^verbatim>\<open>a/models\<close> and \<^verbatim>\<open>b/models\<close>, both \<^verbatim>\<open>package models\<close>, each with
  a type \<^verbatim>\<open>User\<close>, and two units of other packages that import one of them each.\<close>

definition modelsA_file :: ast_File where
  "modelsA_file = \<lparr>file_ptr = 1, file_Name = ''models'', file_Imports = [],
     file_Decls = [type_decl ''User'' OtherExpr]\<rparr>"

definition modelsB_file :: ast_File where
  "modelsB_file = \<lparr>file_ptr = 2, file_Name = ''models'', file_Imports = [],
     file_Decls = [type_decl ''User'' OtherExpr]\<rparr>"

definition ctxA_file :: ast_File where
  "ctxA_file = \<lparr>file_ptr = 3, file_Name = ''handlers'',
     file_Imports = [unnamed_import ''a/models''], file_Decls = [OtherDecl]\<rparr>"

definition ctxB_file :: ast_File where
  "ctxB_file = \<lparr>file_ptr = 4, file_Name = ''admin'',
     file_Imports = [unnamed_import ''b/models''], file_Decls = [OtherDecl]\<rparr>"

definition userA :: TypeSpecDef where
  "userA = \<lparr>PkgPath = ''a/models'', File = modelsA_file,
     TypeSpec = \<lparr>ts_Name = ''User'', ts_Type = OtherExpr\<rparr>\<rparr>"

definition userB :: TypeSpecDef where
  "userB = \<lparr>PkgPath = ''b/models'', File = modelsB_file,
     TypeSpec = \<lparr>ts_Name = ''User'', ts_Type = OtherExpr\<rparr>\<rparr>"

definition two_models :: PackagesDefinitions where
  "two_models =
     CollectAstFile ''b/admin'' ''b/admin/admin.go'' ctxB_file
       (CollectAstFile ''a/handlers'' ''a/handlers/user.go'' ctxA_file
         (CollectAstFile ''b/models'' ''b/models/user.go'' modelsB_file
           (CollectAstFile ''a/models'' ''a/models/user.go'' modelsA_file
             NewPackagesDefinitions)))"

text \<open>A second unit of \<^verbatim>\<open>a/models\<close> that declares \<^verbatim>\<open>User\<close> again, as a file under another
  build constraint does.\<close>

definition modelsA_alt_file :: ast_File where
  "modelsA_alt_file = \<lparr>file_ptr = 5, file_Name = ''models'', file_Imports = [],
     file_Decls = [type_decl ''User'' (Ident ''Account'')]\<rparr>"

definition userA_alt :: TypeSpecDef where
  "userA_alt = \<lparr>PkgPath = ''a/models'', File = modelsA_alt_file,
     TypeSpec = \<lparr>ts_Name = ''User'', ts_Type = Ident ''Account''\<rparr>\<rparr>"

definition one_package :: PackagesDefinitions where
  "one_package =
     CollectAstFile ''a/models'' ''a/models/user_alt.go'' modelsA_alt_file
       (CollectAstFile ''a/models'' ''a/models/user.go'' modelsA_file NewPackagesDefinitions)"

text \<open>A unit with no type declaration, and one collected with an empty package path.\<close>

definition main_file :: ast_File where
  "main_file = \<lparr>file_ptr = 6, file_Name = ''main'', file_Imports = [],
     file_Decls = [OtherDecl, GenDecl token_VAR [OtherSpec]]\<rparr>"

definition headless_file :: ast_File where
  "headless_file = \<lparr>file_ptr = 7, file_Name = ''main'', file_Imports = [],
     file_Decls = [type_decl ''Config'' OtherExpr]\<rparr>"

text \<open>Registries on the zero value, whose index is nil, and one with a headless unit.\<close>

definition uninitialised_main :: PackagesDefinitions where
  "uninitialised_main = CollectAstFile ''app'' ''app/main.go'' main_file zero_PackagesDefinitions"

definition uninitialised_models :: PackagesDefinitions where
  "uninitialised_models =
     CollectAstFile ''a/models'' ''a/models/user.go'' modelsA_file zero_PackagesDefinitions"

definition headless :: PackagesDefinitions where
  "headless = CollectAstFile [] ''main.go'' headless_file NewPackagesDefinitions"

text \<open>The parts of a dotted reference: \<^verbatim>\<open>parts[0]\<close> is \<open>first_part\<close>, and this is
  \<^verbatim>\<open>parts[1]\<close>.\<close>

definition second_part :: "string \<Rightarrow> string" where
  "second_part s = (case strings_Split s CHR ''.'' of p0 # p1 # rest \<Rightarrow> p1 | _ \<Rightarrow> [])"

text \<open>The qualifier \<open>findPackagePathFromImports\<close> looks for, the path of an import, and
  whether the registry records a path under a short name.\<close>

definition qualifier_of :: "string \<Rightarrow> string" where
  "qualifier_of pkgName =
     (if strings_ContainsRune pkgName CHR ''.'' then first_part pkgName else pkgName)"

definition import_path :: "ast_ImportSpec \<Rightarrow> string" where
  "import_path imp = strings_Trim (imp_Path imp) dquote"

definition registered_as :: "PackagesDefinitions \<Rightarrow> string \<Rightarrow> string \<Rightarrow> bool" where
  "registered_as pkgs path q =
     (case made (packages pkgs) path of None \<Rightarrow> False | Some pd \<Rightarrow> pd_Name pd = q)"

text \<open>An import the first loop returns on, and one the second loop returns on.\<close>

definition first_pass_match :: "PackagesDefinitions \<Rightarrow> string \<Rightarrow> ast_ImportSpec \<Rightarrow> bool" where
  "first_pass_match pkgs q imp =
     (case imp_Name imp of
        Some n \<Rightarrow> n = q
      | None \<Rightarrow> registered_as pkgs (import_path imp) q)"

definition anonymous_match :: "PackagesDefinitions \<Rightarrow> string \<Rightarrow> ast_ImportSpec \<Rightarrow> bool" where
  "anonymous_match pkgs q imp =
     (imp_Name imp = Some ''_'' \<and> registered_as pkgs (import_path imp) q)"

text \<open>The rule of the source in one expression: the first import, in the order of the
  file, that the first loop returns on; failing that, the first the second loop returns
  on.\<close>

definition resolve_in_order :: "PackagesDefinitions \<Rightarrow> string \<Rightarrow> ast_ImportSpec list \<Rightarrow> string" where
  "resolve_in_order pkgs q imps =
     (case find (first_pass_match pkgs q) imps of
        Some imp \<Rightarrow> import_path imp
      | None \<Rightarrow>
          (case find (anonymous_match pkgs q) imps of
             Some imp \<Rightarrow> import_path imp
           | None \<Rightarrow> []))"

text \<open>The rule as the specification words it: a named import with the qualifier as its
  alias first, wherever it stands; failing that an unnamed import; failing that an
  anonymous one.\<close>

definition resolve_by_precedence ::
  "PackagesDefinitions \<Rightarrow> string \<Rightarrow> ast_ImportSpec list \<Rightarrow> string" where
  "resolve_by_precedence pkgs q imps =
     (case find (\<lambda>imp. imp_Name imp = Some q) imps of
        Some imp \<Rightarrow> import_path imp
      | None \<Rightarrow>
          (case find (\<lambda>imp. imp_Name imp = None \<and> registered_as pkgs (import_path imp) q) imps of
             Some imp \<Rightarrow> import_path imp
           | None \<Rightarrow>
               (case find (anonymous_match pkgs q) imps of
                  Some imp \<Rightarrow> import_path imp
                | None \<Rightarrow> [])))"

text \<open>A unit that imports \<^verbatim>\<open>a/models\<close> and, after it, \<^verbatim>\<open>b/other\<close> under the name
  \<^verbatim>\<open>models\<close>; one that imports an unregistered \<^verbatim>\<open>x/models\<close>; and the registry after a
  pass over the two units of \<^verbatim>\<open>a/models\<close>.\<close>

definition shadow_file :: ast_File where
  "shadow_file = \<lparr>file_ptr = 8, file_Name = ''handlers'',
     file_Imports = [unnamed_import ''a/models'', named_import ''models'' ''b/other''],
     file_Decls = []\<rparr>"

definition stray_file :: ast_File where
  "stray_file = \<lparr>file_ptr = 9, file_Name = ''handlers'',
     file_Imports = [unnamed_import ''x/models'', named_import ''_'' ''y/models''],
     file_Decls = []\<rparr>"

definition blank_file :: ast_File where
  "blank_file = \<lparr>file_ptr = 10, file_Name = ''handlers'',
     file_Imports = [named_import ''_'' ''b/models''], file_Decls = []\<rparr>"

definition harvested_one :: PackagesDefinitions where
  "harvested_one = snd (ParseTypes ex_host [modelsA_file, modelsA_alt_file] one_package)"

text \<open>What a declaration does to the entry of the index under its own key.\<close>

definition key_step :: "TypeSpecDef \<Rightarrow> TypeSpecDef option \<Rightarrow> TypeSpecDef option" where
  "key_step d v =
     (case v of
        None \<Rightarrow> Some d
      | Some e \<Rightarrow> if PkgPath d = PkgPath e then Some e else None)"

text \<open>Input without conflict: declarations with one key have one owning package path,
  among themselves and with the entries the index holds already.\<close>

definition non_conflicting :: "PackagesDefinitions \<Rightarrow> TypeSpecDef list \<Rightarrow> bool" where
  "non_conflicting pkgs ds =
     ((\<forall>d\<in>set ds. \<forall>d'\<in>set ds. FullName d = FullName d' \<longrightarrow> PkgPath d = PkgPath d') \<and>
      (\<forall>d\<in>set ds. \<forall>e. made (uniqueDefinitions pkgs) (FullName d) = Some e \<longrightarrow>
         PkgPath d = PkgPath e))"

text \<open>The index answers for a declaration: it holds an entry under the key of the
  declaration, with the same owning package path.\<close>

definition covered :: "PackagesDefinitions \<Rightarrow> TypeSpecDef \<Rightarrow> bool" where
  "covered pkgs d =
     (case made (uniqueDefinitions pkgs) (FullName d) of
        None \<Rightarrow> False
      | Some e \<Rightarrow> PkgPath d = PkgPath e)"



text \<open>A third package \<^verbatim>\<open>c/models\<close>, again \<^verbatim>\<open>package models\<close> with a type \<^verbatim>\<open>User\<close>, and
  the registry after a pass over the three.\<close>

definition modelsC_file :: ast_File where
  "modelsC_file = \<lparr>file_ptr = 11, file_Name = ''models'', file_Imports = [],
     file_Decls = [type_decl ''User'' OtherExpr]\<rparr>"

definition userC :: TypeSpecDef where
  "userC = \<lparr>PkgPath = ''c/models'', File = modelsC_file,
     TypeSpec = \<lparr>ts_Name = ''User'', ts_Type = OtherExpr\<rparr>\<rparr>"

definition three_models :: PackagesDefinitions where
  "three_models = CollectAstFile ''c/models'' ''c/models/user.go'' modelsC_file two_models"

definition harvested_three :: PackagesDefinitions where
  "harvested_three =
     snd (ParseTypes ex_host [modelsA_file, modelsB_file, modelsC_file, ctxA_file, ctxB_file]
           three_models)"

section \<open>The pass as one loop over the declarations\<close>

lemma range_loop_append:
  "range_loop body (xs @ ys) s =
     (case range_loop body xs s of Inl r \<Rightarrow> Inl r | Inr s' \<Rightarrow> range_loop body ys s')"
  by (induction xs arbitrary: s) (auto split: sum.splits)

lemma range_loop_concat:
  assumes "\<And>x s. body x s = range_loop g (h x) s"
  shows "range_loop body xs s = range_loop g (concat (map h xs)) s"
  by (induction xs arbitrary: s) (auto simp: assms range_loop_append split: sum.splits)

lemma range_loop_concat_map:
  assumes "\<And>x s. body x s = range_loop g (map f (h x)) s"
  shows "range_loop body xs s = range_loop g (map f (concat (map h xs))) s"
proof -
  have "range_loop body xs s = range_loop g (concat (map (\<lambda>x. map f (h x)) xs)) s"
    by (rule range_loop_concat) (rule assms)
  then show ?thesis by (simp add: map_concat comp_def)
qed

lemma spec_body_flat:
  "spec_body H info astFile astSpec st =
     range_loop (def_body H) (map (new_TypeSpecDef info astFile) (spec_specs astSpec)) st"
  by (cases astSpec) (auto simp: spec_body_def spec_specs_def split: sum.splits)

lemma decl_body_flat:
  "decl_body H info astFile astDeclaration st =
     range_loop (def_body H) (map (new_TypeSpecDef info astFile) (decl_specs astDeclaration)) st"
proof (cases astDeclaration)
  case (GenDecl tok specs)
  have "range_loop (spec_body H info astFile) specs st =
        range_loop (def_body H) (map (new_TypeSpecDef info astFile) (concat (map spec_specs specs))) st"
    by (rule range_loop_concat_map) (rule spec_body_flat)
  with GenDecl show ?thesis by (simp add: decl_body_def decl_specs_def)
next
  case OtherDecl
  then show ?thesis by (simp add: decl_body_def decl_specs_def)
qed

lemma file_body_flat:
  "file_body H fs astFile st = range_loop (def_body H) (file_defs fs astFile) st"
proof (cases "fs astFile")
  case None
  then show ?thesis by (simp add: file_body_def file_defs_def)
next
  case (Some info)
  have "range_loop (decl_body H info astFile) (file_Decls astFile) st =
        range_loop (def_body H) (map (new_TypeSpecDef info astFile)
          (concat (map decl_specs (file_Decls astFile)))) st"
    by (rule range_loop_concat_map) (rule decl_body_flat)
  with Some show ?thesis by (simp add: file_body_def file_defs_def file_specs_def)
qed

lemma def_loop_registry:
  "range_loop (def_body H) ds (parsedSchemas, pkgs) =
     (case range_loop register_def ds pkgs of
        Inl r \<Rightarrow> Inl r
      | Inr pkgs' \<Rightarrow> Inr (harvest_schemas H ds parsedSchemas, pkgs'))"
  by (induction ds arbitrary: parsedSchemas pkgs)
     (auto simp: def_body_def harvest_schemas_def split: sum.splits)

text \<open>\<open>ParseTypes\<close> runs \<open>register_def\<close> on the declarations of \<open>harvest_defs\<close>, one after
  the other, until one of them leaves the function.\<close>

lemma ParseTypes_flat:
  "ParseTypes H order pkgs =
     (case range_loop register_def (harvest_defs pkgs order) pkgs of
        Inl r \<Rightarrow> r
      | Inr pkgs' \<Rightarrow> (Parsed (harvest_schemas H (harvest_defs pkgs order) []), pkgs'))"
proof -
  have "range_loop (file_body H (made (files pkgs))) order ([], pkgs) =
        range_loop (def_body H) (harvest_defs pkgs order) ([], pkgs)"
    unfolding harvest_defs_def by (rule range_loop_concat) (rule file_body_flat)
  then show ?thesis
    by (simp add: ParseTypes_def def_loop_registry split: sum.splits)
qed

section \<open>What one declaration does to the registry\<close>

lemma write_local_Inr:
  "write_local d pkgs = Inr pkgs' \<longleftrightarrow>
     (\<exists>ps pd. packages pkgs = Some ps \<and> ps (PkgPath d) = Some pd \<and>
        pkgs' = pkgs\<lparr>packages := Some (ps(PkgPath d \<mapsto>
                  pd\<lparr>TypeDefinitions := (TypeDefinitions pd)(Name d \<mapsto> d)\<rparr>))\<rparr>)"
  by (auto simp: write_local_def split: option.splits)

lemma write_local_Inl:
  "write_local d pkgs = Inl r \<longleftrightarrow>
     (PkgPath d \<notin> dom (made (packages pkgs)) \<and> r = (NilDereference, pkgs))"
  by (auto simp: write_local_def made_def split: option.splits)

lemma write_local_total:
  "PkgPath d \<in> dom (made (packages pkgs)) \<Longrightarrow> \<exists>pkgs'. write_local d pkgs = Inr pkgs'"
  by (auto simp: write_local_def made_def split: option.splits)


lemma uniq_write_local:
  "uniqueDefinitions (registry_after (write_local d pkgs)) = uniqueDefinitions pkgs"
  by (simp add: write_local_def registry_after_def split: option.splits)

lemma register_def_nil:
  "uniqueDefinitions pkgs = None \<Longrightarrow>
     register_def d pkgs =
       Inl (ConfigurationError ''could not parse types, as unique definitions were nil'', pkgs)"
  by (simp add: register_def_def)

lemma register_def_same_path:
  "uniqueDefinitions pkgs = Some uniq \<Longrightarrow> uniq (FullName d) = Some e \<Longrightarrow> PkgPath d = PkgPath e
    \<Longrightarrow> register_def d pkgs = Inr pkgs"
  by (simp add: register_def_def)

lemma register_def_other_path:
  "uniqueDefinitions pkgs = Some uniq \<Longrightarrow> uniq (FullName d) = Some e \<Longrightarrow> PkgPath d \<noteq> PkgPath e
    \<Longrightarrow> register_def d pkgs =
          write_local d (pkgs\<lparr>uniqueDefinitions := Some (uniq(FullName d := None))\<rparr>)"
  by (simp add: register_def_def)

lemma register_def_absent:
  "uniqueDefinitions pkgs = Some uniq \<Longrightarrow> uniq (FullName d) = None
    \<Longrightarrow> register_def d pkgs =
          write_local d (pkgs\<lparr>uniqueDefinitions := Some (uniq(FullName d \<mapsto> d))\<rparr>)"
  by (simp add: register_def_def)

lemma register_def_ConfigurationError:
  "register_def d pkgs = Inl (ConfigurationError m, pkgs') \<Longrightarrow>
     uniqueDefinitions pkgs = None \<and> pkgs' = pkgs"
  by (auto simp: register_def_def write_local_def Let_def split: option.splits if_splits)

lemma register_def_files:
  "register_def d pkgs = Inr pkgs' \<Longrightarrow> files pkgs' = files pkgs"
  by (auto simp: register_def_def write_local_Inr Let_def split: option.splits if_splits)

lemma register_def_dom_packages:
  "register_def d pkgs = Inr pkgs' \<Longrightarrow> dom (made (packages pkgs')) = dom (made (packages pkgs))"
  by (auto simp: register_def_def write_local_Inr Let_def made_def split: option.splits if_splits)

lemma register_def_initialised:
  "register_def d pkgs = Inr pkgs' \<Longrightarrow> uniqueDefinitions pkgs \<noteq> None \<and> uniqueDefinitions pkgs' \<noteq> None"
  by (auto simp: register_def_def write_local_Inr Let_def made_def split: option.splits if_splits)

section \<open>Well-formed registries\<close>

lemma wf_registry_new: "wf_registry NewPackagesDefinitions"
  by (simp add: wf_registry_def NewPackagesDefinitions_def made_def index_keyed_def)

lemma wf_registry_zero: "wf_registry zero_PackagesDefinitions"
  by (simp add: wf_registry_def zero_PackagesDefinitions_def made_def index_keyed_def)

lemma wf_registry_collect:
  assumes "wf_registry pkgs"
  shows "wf_registry (CollectAstFile packageDir path astFile pkgs)"
  using assms
  by (auto simp: wf_registry_def CollectAstFile_def Let_def made_def dom_def
           split: option.splits if_splits)

lemma wf_registry_register_def:
  assumes "wf_registry pkgs" and "register_def d pkgs = Inr pkgs'"
  shows "wf_registry pkgs'"
  using assms
  by (auto simp: wf_registry_def register_def_def write_local_Inr Let_def made_def dom_def
        index_keyed_def split: option.splits if_splits)

section \<open>The loop over the declarations\<close>

lemma loop_Inr_wf:
  "range_loop register_def ds pkgs = Inr pkgs' \<Longrightarrow> wf_registry pkgs \<Longrightarrow> wf_registry pkgs'"
proof (induction ds arbitrary: pkgs)
  case Nil
  then show ?case by simp
next
  case (Cons d ds)
  then show ?case
    by (auto split: sum.splits intro: wf_registry_register_def)
qed

lemma loop_ConfigurationError:
  "range_loop register_def ds pkgs = Inl (ConfigurationError m, pkgs') \<Longrightarrow>
     uniqueDefinitions pkgs = None \<and> pkgs' = pkgs"
proof (induction ds arbitrary: pkgs)
  case Nil
  then show ?case by simp
next
  case (Cons d ds)
  show ?case
  proof (cases "register_def d pkgs")
    case (Inl r)
    with Cons.prems show ?thesis by (auto dest: register_def_ConfigurationError)
  next
    case (Inr p1)
    with Cons.prems have "range_loop register_def ds p1 = Inl (ConfigurationError m, pkgs')"
      by simp
    from Cons.IH [OF this] have "uniqueDefinitions p1 = None" by simp
    with Inr show ?thesis by (auto dest: register_def_initialised)
  qed
qed

lemma loop_files:
  "range_loop register_def ds pkgs = Inr pkgs' \<Longrightarrow> files pkgs' = files pkgs"
  by (induction ds arbitrary: pkgs) (auto split: sum.splits dest: register_def_files)

lemma loop_nil_index:
  "uniqueDefinitions pkgs = None \<Longrightarrow> ds \<noteq> [] \<Longrightarrow>
     range_loop register_def ds pkgs =
       Inl (ConfigurationError ''could not parse types, as unique definitions were nil'', pkgs)"
  by (cases ds) (simp_all add: register_def_nil)

lemma register_def_not_Parsed: "register_def d pkgs \<noteq> Inl (Parsed s, p)"
  by (auto simp: register_def_def write_local_def Let_def split: option.splits if_splits)

lemma loop_not_Parsed: "range_loop register_def ds pkgs \<noteq> Inl (Parsed s, p)"
  by (induction ds arbitrary: pkgs) (auto simp: register_def_not_Parsed split: sum.splits)

lemma ParseTypes_wf:
  assumes "wf_registry pkgs" and "ParseTypes H order pkgs = (res, pkgs')" and "res \<noteq> NilDereference"
  shows "wf_registry pkgs'"
proof (cases "range_loop register_def (harvest_defs pkgs order) pkgs")
  case (Inl r)
  with assms(2) have r: "r = (res, pkgs')" by (simp add: ParseTypes_flat)
  show ?thesis
  proof (cases res)
    case (Parsed s)
    with Inl r show ?thesis by (simp add: loop_not_Parsed)
  next
    case (ConfigurationError m)
    with Inl r loop_ConfigurationError [of "harvest_defs pkgs order" pkgs m pkgs'] assms(1)
    show ?thesis by simp
  next
    case NilDereference
    with assms(3) show ?thesis by simp
  qed
next
  case (Inr p)
  with assms(2) have "pkgs' = p" by (simp add: ParseTypes_flat)
  with Inr assms(1) show ?thesis by (auto dest: loop_Inr_wf)
qed

theorem reachable_wf: "reachable pkgs \<Longrightarrow> wf_registry pkgs"
proof (induction rule: reachable.induct)
  case new
  show ?case by (rule wf_registry_new)
next
  case zero
  show ?case by (rule wf_registry_zero)
next
  case (collect pkgs packageDir path astFile)
  then show ?case by (simp add: wf_registry_collect)
next
  case (parse pkgs order H res pkgs')
  then show ?case by (auto intro: ParseTypes_wf)
qed

section \<open>Collisions in the global index\<close>

lemma uniq_register_def_other_path:
  "uniqueDefinitions pkgs = Some uniq \<Longrightarrow> uniq (FullName d) = Some e \<Longrightarrow> PkgPath d \<noteq> PkgPath e
    \<Longrightarrow> uniqueDefinitions (registry_after (register_def d pkgs)) = Some (uniq(FullName d := None))"
  by (simp add: register_def_other_path uniq_write_local)

lemma not_ran_delete:
  "index_keyed uniq \<Longrightarrow> FullName x = k \<Longrightarrow> x \<notin> ran (uniq(k := None))"
  by (auto simp: index_keyed_def ran_def)

lemmas ex_defs = two_models_def modelsA_file_def modelsB_file_def ctxA_file_def ctxB_file_def
  userA_def userB_def type_decl_def unnamed_import_def named_import_def dquote_def

lemmas model_defs = ParseTypes_def file_body_def decl_body_def spec_body_def def_body_def
  register_def_def write_local_def primitive_schema_def new_TypeSpecDef_def CollectAstFile_def
  NewPackagesDefinitions_def zero_PackagesDefinitions_def made_def FullName_def Name_def
  fullTypeName_def registry_after_def

text \<open>What a collision does at the declaration that meets it: an entry of the same owning
  package path is left as it is, an entry of another owning package path is deleted,
  whether or not the write to the local map that follows succeeds. Nothing records the
  deletion.\<close>

lemma register_def_collision:
  assumes "uniqueDefinitions pkgs = Some uniq" and "index_keyed uniq"
    and "uniq (FullName d) = Some e"
  shows "(PkgPath d = PkgPath e \<longrightarrow> register_def d pkgs = Inr pkgs) \<and>
         (PkgPath d \<noteq> PkgPath e \<longrightarrow>
            uniqueDefinitions (registry_after (register_def d pkgs)) =
              Some (uniq(FullName d := None)) \<and>
            d \<notin> ran (uniq(FullName d := None)) \<and> e \<notin> ran (uniq(FullName d := None)))"
proof -
  have ke: "FullName e = FullName d"
    using assms(2,3) by (simp add: index_keyed_def)
  show ?thesis
    using assms register_def_same_path [of pkgs uniq d e]
      uniq_register_def_other_path [of pkgs uniq d e]
      not_ran_delete [of uniq d "FullName d"] not_ran_delete [of uniq e "FullName d"] ke
    by simp
qed

text \<open>
  C1. The source misses a case. A collision deletes the key and leaves nothing behind, so
  the next declaration under that key finds it absent and is inserted by line 110. With
  three packages \<^verbatim>\<open>a/models\<close>, \<^verbatim>\<open>b/models\<close> and \<^verbatim>\<open>c/models\<close>, all \<^verbatim>\<open>package models\<close>
  and each with a type \<^verbatim>\<open>User\<close>, visited in this order, the pass returns normally and
  the index holds \<^verbatim>\<open>models.User\<close>, owned by \<^verbatim>\<open>c/models\<close>: a key three definitions compete
  for is in the index after the pass. The shortcut of \<open>FindTypeSpec\<close> then gives that
  definition to a unit that imports \<^verbatim>\<open>a/models\<close>, although the imports resolve the
  qualifier to \<^verbatim>\<open>a/models\<close> and the local map of that package holds its own \<^verbatim>\<open>User\<close>.
\<close>

theorem third_collision_reinserts_key:
  "reachable three_models \<and>
   range_order three_models [modelsA_file, modelsB_file, modelsC_file, ctxA_file, ctxB_file] \<and>
   harvest_defs three_models [modelsA_file, modelsB_file, modelsC_file, ctxA_file, ctxB_file] =
     [userA, userB, userC] \<and>
   FullName userA = ''models.User'' \<and> FullName userB = ''models.User'' \<and>
   FullName userC = ''models.User'' \<and>
   fst (ParseTypes ex_host [modelsA_file, modelsB_file, modelsC_file, ctxA_file, ctxB_file]
         three_models) = Parsed [] \<and>
   made (uniqueDefinitions harvested_three) ''models.User'' = Some userC \<and>
   PkgPath userC = ''c/models'' \<and>
   findPackagePathFromImports harvested_three ''models'' (Some ctxA_file) = ''a/models'' \<and>
   findTypeSpec harvested_three ''a/models'' ''User'' = Some userA \<and>
   FindTypeSpec ex_host ''models.User'' (Some ctxA_file) harvested_three = Ret (Some userC)"
proof -
  have r: "reachable three_models"
    unfolding three_models_def two_models_def by (intro reachable.collect reachable.new)
  have o: "range_order three_models
      [modelsA_file, modelsB_file, modelsC_file, ctxA_file, ctxB_file]"
    by (auto simp: range_order_def three_models_def modelsC_file_def model_defs ex_defs)
  have d: "harvest_defs three_models
      [modelsA_file, modelsB_file, modelsC_file, ctxA_file, ctxB_file] = [userA, userB, userC]"
    by (simp add: harvest_defs_def file_defs_def file_specs_def decl_specs_def spec_specs_def
          three_models_def modelsC_file_def userC_def model_defs ex_defs)
  have k: "FullName userA = ''models.User''" "FullName userB = ''models.User''"
    "FullName userC = ''models.User''"
    by (simp_all add: FullName_def fullTypeName_def userC_def modelsC_file_def ex_defs)
  have p: "fst (ParseTypes ex_host [modelsA_file, modelsB_file, modelsC_file, ctxA_file, ctxB_file]
         three_models) = Parsed []"
    by (simp add: three_models_def modelsC_file_def model_defs ex_defs)
  have i: "made (uniqueDefinitions harvested_three) ''models.User'' = Some userC"
    by (simp add: harvested_three_def three_models_def modelsC_file_def userC_def model_defs
          ex_defs)
  have c: "PkgPath userC = ''c/models''"
    by (simp add: userC_def)
  have q: "findPackagePathFromImports harvested_three ''models'' (Some ctxA_file) = ''a/models''"
    by (simp add: findPackagePathFromImports_def strings_ContainsRune_def strings_Trim_def
          harvested_three_def three_models_def modelsC_file_def model_defs ex_defs)
  have l: "findTypeSpec harvested_three ''a/models'' ''User'' = Some userA"
    by (simp add: findTypeSpec_def harvested_three_def three_models_def modelsC_file_def
          model_defs ex_defs)
  have f: "FindTypeSpec ex_host ''models.User'' (Some ctxA_file) harvested_three =
      Ret (Some userC)"
    using i
    by (simp add: FindTypeSpec_def isAliasPkgName_def strings_ContainsRune_def ex_host_def
          ctxA_file_def unnamed_import_def)
  from r o d k p i c q l f show ?thesis by blast
qed

section \<open>The write to the local map\<close>

text \<open>
  C3, as the source has it. A type declaration is written into the local map of its
  owning package, under its bare name, when the global index has no entry under its key
  or an entry of another owning package path (and the owning package has a record). When
  the index holds an entry with the same key and the same owning package path, the
  declaration is skipped by the \<^verbatim>\<open>continue\<close> of line 105: the registry stays as it is.
\<close>

theorem local_map_write:
  assumes "uniqueDefinitions pkgs = Some uniq" and "packages pkgs = Some ps"
    and "ps (PkgPath d) = Some pd"
  shows "((uniq (FullName d) = None \<or> (\<exists>e. uniq (FullName d) = Some e \<and> PkgPath d \<noteq> PkgPath e)) \<longrightarrow>
            (\<exists>pkgs'. register_def d pkgs = Inr pkgs' \<and>
               packages pkgs' = Some (ps(PkgPath d \<mapsto>
                 pd\<lparr>TypeDefinitions := (TypeDefinitions pd)(Name d \<mapsto> d)\<rparr>)) \<and>
               findTypeSpec pkgs' (PkgPath d) (Name d) = Some d)) \<and>
         ((\<exists>e. uniq (FullName d) = Some e \<and> PkgPath d = PkgPath e) \<longrightarrow>
            register_def d pkgs = Inr pkgs)"
  using assms
  by (auto simp: register_def_def write_local_def findTypeSpec_def)

theorem local_map_write_witness:
  "uniqueDefinitions two_models = Some Map.empty \<and>
   (\<exists>ps pd. packages two_models = Some ps \<and> ps (PkgPath userA) = Some pd) \<and>
   (\<exists>pkgs'. register_def userA two_models = Inr pkgs' \<and>
      findTypeSpec pkgs' (PkgPath userA) (Name userA) = Some userA)"
proof -
  have u: "uniqueDefinitions two_models = Some Map.empty"
    by (simp add: model_defs ex_defs)
  obtain ps where p: "packages two_models = Some ps"
    by (simp add: model_defs ex_defs)
  obtain pd where r: "ps (PkgPath userA) = Some pd"
    using p by (auto simp add: model_defs ex_defs)
  from local_map_write [OF u p r] u p r show ?thesis
    by auto
qed

text \<open>Two units of one package declare the same type: the second declaration, visited
  last, is not in the local map after the pass.\<close>

theorem local_map_write_counterexample:
  "harvest_defs one_package [modelsA_file, modelsA_alt_file] = [userA, userA_alt] \<and>
   fst (ParseTypes ex_host [modelsA_file, modelsA_alt_file] one_package) = Parsed [] \<and>
   findTypeSpec (snd (ParseTypes ex_host [modelsA_file, modelsA_alt_file] one_package))
     ''a/models'' ''User'' = Some userA \<and>
   userA \<noteq> userA_alt"
  by (simp add: model_defs ex_defs harvest_defs_def file_defs_def file_specs_def decl_specs_def
        spec_specs_def findTypeSpec_def one_package_def modelsA_alt_file_def userA_alt_def
        ex_host_def)

section \<open>When the pass returns\<close>

lemma made_Some [simp]: "made (Some m) = m"
  by (simp add: made_def)

lemma made_None [simp]: "made None = Map.empty"
  by (simp add: made_def)

lemma file_defs_member:
  "d \<in> set (file_defs fs f) \<longleftrightarrow>
     (\<exists>info t. fs f = Some info \<and> t \<in> set (file_specs f) \<and> d = new_TypeSpecDef info f t)"
  by (cases "fs f") (auto simp: file_defs_def)

lemma harvest_defs_member:
  "d \<in> set (harvest_defs pkgs order) \<longleftrightarrow>
     (\<exists>f info t. f \<in> set order \<and> made (files pkgs) f = Some info \<and> t \<in> set (file_specs f) \<and>
        d = new_TypeSpecDef info f t)"
  by (auto simp: harvest_defs_def file_defs_member)

lemma wf_index_owner:
  assumes "wf_registry pkgs" and "uniqueDefinitions pkgs = Some uniq" and "uniq k = Some e"
  shows "PkgPath e \<in> dom (made (packages pkgs))"
proof -
  have "made (uniqueDefinitions pkgs) k = Some e"
    using assms(2,3) by simp
  with assms(1) show ?thesis
    unfolding wf_registry_def by blast
qed

lemma register_def_total:
  assumes "uniqueDefinitions pkgs \<noteq> None" and "PkgPath d \<in> dom (made (packages pkgs))"
  shows "\<exists>pkgs'. register_def d pkgs = Inr pkgs'"
proof -
  obtain uniq where u: "uniqueDefinitions pkgs = Some uniq"
    using assms(1) by auto
  have w: "\<exists>pkgs'. write_local d (pkgs\<lparr>uniqueDefinitions := x\<rparr>) = Inr pkgs'" for x
    using assms(2) by (intro write_local_total) simp
  show ?thesis
    using u w by (cases "uniq (FullName d)") (auto simp: register_def_def)
qed

lemma register_def_panics:
  assumes "wf_registry pkgs" and "uniqueDefinitions pkgs \<noteq> None"
    and "PkgPath d \<notin> dom (made (packages pkgs))"
  shows "\<exists>p. register_def d pkgs = Inl (NilDereference, p)"
proof -
  obtain uniq where u: "uniqueDefinitions pkgs = Some uniq"
    using assms(2) by auto
  have other: "PkgPath d \<noteq> PkgPath e" if "uniq (FullName d) = Some e" for e
    using wf_index_owner [OF assms(1) u that] assms(3) by auto
  have "\<And>u. PkgPath d \<notin> dom (made (packages (pkgs\<lparr>uniqueDefinitions := u\<rparr>)))"
    using assms(3) by simp
  then have "\<And>u. write_local d (pkgs\<lparr>uniqueDefinitions := u\<rparr>) =
      Inl (NilDereference, pkgs\<lparr>uniqueDefinitions := u\<rparr>)"
    by (simp add: write_local_Inl)
  then show ?thesis
    using u other by (cases "uniq (FullName d)") (auto simp: register_def_def)
qed

lemma loop_total:
  "wf_registry pkgs \<Longrightarrow> uniqueDefinitions pkgs \<noteq> None \<Longrightarrow>
     \<forall>d\<in>set ds. PkgPath d \<in> dom (made (packages pkgs)) \<Longrightarrow>
     \<exists>pkgs'. range_loop register_def ds pkgs = Inr pkgs'"
proof (induction ds arbitrary: pkgs)
  case Nil
  then show ?case by simp
next
  case (Cons d ds)
  from Cons.prems obtain p1 where p1: "register_def d pkgs = Inr p1"
    using register_def_total [of pkgs d] by auto
  have "wf_registry p1" "uniqueDefinitions p1 \<noteq> None"
    "dom (made (packages p1)) = dom (made (packages pkgs))"
    using p1 Cons.prems(1) wf_registry_register_def [of pkgs d p1]
      register_def_initialised [of d pkgs p1] register_def_dom_packages [of d pkgs p1]
    by simp_all
  with Cons.IH [of p1] Cons.prems(3) p1 show ?case by simp
qed

lemma loop_panics:
  "wf_registry pkgs \<Longrightarrow> uniqueDefinitions pkgs \<noteq> None \<Longrightarrow>
     \<exists>d\<in>set ds. PkgPath d \<notin> dom (made (packages pkgs)) \<Longrightarrow>
     \<exists>p. range_loop register_def ds pkgs = Inl (NilDereference, p)"
proof (induction ds arbitrary: pkgs)
  case Nil
  then show ?case by simp
next
  case (Cons d ds)
  show ?case
  proof (cases "PkgPath d \<in> dom (made (packages pkgs))")
    case False
    with Cons.prems register_def_panics [of pkgs d] show ?thesis by auto
  next
    case True
    with Cons.prems obtain p1 where p1: "register_def d pkgs = Inr p1"
      using register_def_total [of pkgs d] by auto
    have "wf_registry p1" "uniqueDefinitions p1 \<noteq> None"
      "dom (made (packages p1)) = dom (made (packages pkgs))"
      using p1 Cons.prems(1) wf_registry_register_def [of pkgs d p1]
        register_def_initialised [of d pkgs p1] register_def_dom_packages [of d pkgs p1]
      by simp_all
    with Cons.IH [of p1] Cons.prems(3) True p1 show ?thesis by auto
  qed
qed

lemma harvest_defs_registered:
  assumes "wf_registry pkgs" and "d \<in> set (harvest_defs pkgs order)" and "PkgPath d \<noteq> ''''"
  shows "PkgPath d \<in> dom (made (packages pkgs))"
proof -
  from assms(2) obtain f info t
    where f: "made (files pkgs) f = Some info" and d: "d = new_TypeSpecDef info f t"
    by (auto simp: harvest_defs_member)
  from d assms(3) have "PkgPath d = PackagePath info" "PackagePath info \<noteq> ''''"
    by (simp_all add: new_TypeSpecDef_def)
  with f assms(1) show ?thesis
    unfolding wf_registry_def by metis
qed

lemma ParseTypes_total:
  assumes "wf_registry pkgs" and "uniqueDefinitions pkgs \<noteq> None"
    and "\<forall>d\<in>set (harvest_defs pkgs order). PkgPath d \<noteq> ''''"
  shows "\<exists>parsedSchemas pkgs'. ParseTypes H order pkgs = (Parsed parsedSchemas, pkgs')"
proof -
  have "\<forall>d\<in>set (harvest_defs pkgs order). PkgPath d \<in> dom (made (packages pkgs))"
    using assms(1,3) harvest_defs_registered by blast
  from loop_total [OF assms(1,2) this] show ?thesis
    by (auto simp: ParseTypes_flat)
qed

lemma ParseTypes_panics:
  assumes "wf_registry pkgs" and "uniqueDefinitions pkgs \<noteq> None"
    and "d \<in> set (harvest_defs pkgs order)" and "PkgPath d = ''''"
  shows "fst (ParseTypes H order pkgs) = NilDereference"
proof -
  have "PkgPath d \<notin> dom (made (packages pkgs))"
    using assms(1,4) by (simp add: wf_registry_def)
  with assms(3) have "\<exists>d\<in>set (harvest_defs pkgs order). PkgPath d \<notin> dom (made (packages pkgs))"
    by blast
  from loop_panics [OF assms(1,2) this] show ?thesis
    by (auto simp: ParseTypes_flat)
qed

lemma ParseTypes_nil_index:
  assumes "uniqueDefinitions pkgs = None"
  shows "ParseTypes H order pkgs =
     (if harvest_defs pkgs order = [] then (Parsed [], pkgs)
      else (ConfigurationError ''could not parse types, as unique definitions were nil'', pkgs))"
  using assms by (simp add: ParseTypes_flat loop_nil_index harvest_schemas_def)

lemma ParseTypes_ConfigurationError:
  assumes "fst (ParseTypes H order pkgs) = ConfigurationError m"
  shows "uniqueDefinitions pkgs = None"
proof (cases "range_loop register_def (harvest_defs pkgs order) pkgs")
  case (Inl r)
  with assms have "r = (ConfigurationError m, snd r)"
    by (cases r) (simp add: ParseTypes_flat)
  with Inl loop_ConfigurationError [of "harvest_defs pkgs order" pkgs m "snd r"]
  show ?thesis by simp
next
  case (Inr p)
  with assms show ?thesis by (simp add: ParseTypes_flat)
qed

text \<open>
  C7, as the source has it. The test for a nil index stands inside the loops, before the
  first use of the index: with a nil index the pass returns the configuration error at
  the first type declaration it visits, and returns normally, with no schema, when it
  visits none. The configuration error is the only error the pass returns, and it never
  returns it with an index that is made. With an index that is made, a registry built by
  the exported operations and every visited declaration owned by a non-empty package
  path, the pass returns normally.
\<close>

theorem harvest_configuration_error:
  "(uniqueDefinitions pkgs = None \<longrightarrow>
      ParseTypes H order pkgs =
        (if harvest_defs pkgs order = [] then (Parsed [], pkgs)
         else (ConfigurationError ''could not parse types, as unique definitions were nil'', pkgs))) \<and>
   (uniqueDefinitions pkgs \<noteq> None \<longrightarrow> (\<forall>m. fst (ParseTypes H order pkgs) \<noteq> ConfigurationError m)) \<and>
   (uniqueDefinitions pkgs \<noteq> None \<longrightarrow> reachable pkgs \<longrightarrow>
      (\<forall>d\<in>set (harvest_defs pkgs order). PkgPath d \<noteq> []) \<longrightarrow>
      (\<exists>parsedSchemas pkgs'. ParseTypes H order pkgs = (Parsed parsedSchemas, pkgs')))"
proof (intro conjI impI allI)
  assume "uniqueDefinitions pkgs = None"
  then show "ParseTypes H order pkgs =
        (if harvest_defs pkgs order = [] then (Parsed [], pkgs)
         else (ConfigurationError ''could not parse types, as unique definitions were nil'', pkgs))"
    by (rule ParseTypes_nil_index)
next
  fix m
  assume "uniqueDefinitions pkgs \<noteq> None"
  then show "fst (ParseTypes H order pkgs) \<noteq> ConfigurationError m"
    using ParseTypes_ConfigurationError [of H order pkgs m] by auto
next
  assume "uniqueDefinitions pkgs \<noteq> None" and "reachable pkgs"
    and "\<forall>d\<in>set (harvest_defs pkgs order). PkgPath d \<noteq> []"
  then show "\<exists>parsedSchemas pkgs'. ParseTypes H order pkgs = (Parsed parsedSchemas, pkgs')"
    using ParseTypes_total [of pkgs order H] reachable_wf [of pkgs] by blast
qed

lemma reachable_two_models: "reachable two_models"
  unfolding two_models_def by (intro reachable.collect reachable.new)

lemma harvest_defs_two_models:
  "harvest_defs two_models [modelsA_file, modelsB_file, ctxA_file, ctxB_file] = [userA, userB]"
  by (simp add: harvest_defs_def file_defs_def file_specs_def decl_specs_def spec_specs_def
        model_defs ex_defs)

theorem harvest_configuration_error_witness:
  "uniqueDefinitions uninitialised_models = None \<and>
   ParseTypes ex_host [modelsA_file] uninitialised_models =
     (ConfigurationError ''could not parse types, as unique definitions were nil'',
      uninitialised_models) \<and>
   uniqueDefinitions two_models \<noteq> None \<and> reachable two_models \<and>
   harvest_defs two_models [modelsA_file, modelsB_file, ctxA_file, ctxB_file] = [userA, userB] \<and>
   PkgPath userA \<noteq> [] \<and> PkgPath userB \<noteq> [] \<and>
   (\<exists>parsedSchemas pkgs'.
      ParseTypes ex_host [modelsA_file, modelsB_file, ctxA_file, ctxB_file] two_models =
        (Parsed parsedSchemas, pkgs'))"
proof -
  have n: "uniqueDefinitions uninitialised_models = None"
    by (simp add: uninitialised_models_def model_defs)
  have d: "harvest_defs uninitialised_models [modelsA_file] \<noteq> []"
    by (simp add: harvest_defs_def file_defs_def file_specs_def decl_specs_def spec_specs_def
          uninitialised_models_def model_defs ex_defs)
  have i: "uniqueDefinitions two_models \<noteq> None"
    by (simp add: model_defs ex_defs)
  have p: "PkgPath userA \<noteq> []" "PkgPath userB \<noteq> []"
    by (simp_all add: ex_defs)
  from harvest_configuration_error [of uninitialised_models ex_host "[modelsA_file]"]
    harvest_configuration_error [of two_models ex_host
      "[modelsA_file, modelsB_file, ctxA_file, ctxB_file]"]
    n d i p reachable_two_models harvest_defs_two_models
  show ?thesis by simp
qed

text \<open>The index is nil and the pass returns normally: the one unit has no type
  declaration.\<close>

theorem harvest_configuration_error_counterexample:
  "uniqueDefinitions uninitialised_main = None \<and>
   ParseTypes ex_host [main_file] uninitialised_main = (Parsed [], uninitialised_main)"
  by (simp add: uninitialised_main_def main_file_def model_defs)

text \<open>
  C9. \<open>CollectAstFile\<close> with an empty package path stores the unit and creates no
  package record. On a registry built by the exported operations, the pass returns
  normally when the index is made and every unit with a type declaration has a non-empty
  package path; when a unit with a type declaration has the empty package path, the pass
  does not return normally: with an index that is made it panics at the write to the
  local map of a package that has no record.
\<close>

theorem harvest_needs_package_paths:
  assumes "reachable pkgs" and "range_order pkgs order"
  shows "files (CollectAstFile [] path astFile pkgs) =
           Some ((made (files pkgs))
             (astFile \<mapsto> \<lparr>info_File = astFile, Path = path, PackagePath = []\<rparr>)) \<and>
         packages (CollectAstFile [] path astFile pkgs) = packages pkgs \<and>
         (uniqueDefinitions pkgs \<noteq> None \<longrightarrow>
            (\<forall>f info. made (files pkgs) f = Some info \<longrightarrow> file_specs f \<noteq> [] \<longrightarrow>
               PackagePath info \<noteq> []) \<longrightarrow>
            (\<exists>parsedSchemas pkgs'. ParseTypes H order pkgs = (Parsed parsedSchemas, pkgs'))) \<and>
         (\<forall>f info. made (files pkgs) f = Some info \<longrightarrow> file_specs f \<noteq> [] \<longrightarrow>
            PackagePath info = [] \<longrightarrow>
            (\<forall>parsedSchemas pkgs'. ParseTypes H order pkgs \<noteq> (Parsed parsedSchemas, pkgs')) \<and>
            (uniqueDefinitions pkgs \<noteq> None \<longrightarrow> fst (ParseTypes H order pkgs) = NilDereference))"
proof -
  have wf: "wf_registry pkgs"
    using assms(1) by (rule reachable_wf)
  have collect: "files (CollectAstFile [] path astFile pkgs) =
           Some ((made (files pkgs))
             (astFile \<mapsto> \<lparr>info_File = astFile, Path = path, PackagePath = []\<rparr>)) \<and>
         packages (CollectAstFile [] path astFile pkgs) = packages pkgs"
    by (simp add: CollectAstFile_def)
  have total: "\<exists>parsedSchemas pkgs'. ParseTypes H order pkgs = (Parsed parsedSchemas, pkgs')"
    if i: "uniqueDefinitions pkgs \<noteq> None"
      and ne: "\<forall>f info. made (files pkgs) f = Some info \<longrightarrow> file_specs f \<noteq> [] \<longrightarrow>
               PackagePath info \<noteq> []"
  proof -
    have "\<forall>d\<in>set (harvest_defs pkgs order). PkgPath d \<noteq> []"
      using ne by (fastforce simp: harvest_defs_member new_TypeSpecDef_def)
    from ParseTypes_total [OF wf i this] show ?thesis .
  qed
  have partial: "(\<forall>parsedSchemas pkgs'. ParseTypes H order pkgs \<noteq> (Parsed parsedSchemas, pkgs')) \<and>
            (uniqueDefinitions pkgs \<noteq> None \<longrightarrow> fst (ParseTypes H order pkgs) = NilDereference)"
    if f: "made (files pkgs) f = Some info" and s: "file_specs f \<noteq> []"
      and e: "PackagePath info = []" for f info
  proof -
    from s obtain t where t: "t \<in> set (file_specs f)"
      by (cases "file_specs f") auto
    have "f \<in> set order"
      using f assms(2) by (auto simp: range_order_def)
    with f t have d: "new_TypeSpecDef info f t \<in> set (harvest_defs pkgs order)"
      by (auto simp: harvest_defs_member)
    have p: "PkgPath (new_TypeSpecDef info f t) = []"
      using e by (simp add: new_TypeSpecDef_def)
    show ?thesis
    proof (cases "uniqueDefinitions pkgs")
      case None
      moreover from d have "harvest_defs pkgs order \<noteq> []" by auto
      ultimately show ?thesis by (simp add: ParseTypes_nil_index)
    next
      case (Some uniq)
      then have "fst (ParseTypes H order pkgs) = NilDereference"
        using ParseTypes_panics [OF wf _ d p] by simp
      then show ?thesis by auto
    qed
  qed
  from collect total partial show ?thesis by blast
qed

theorem harvest_needs_package_paths_witness:
  "reachable headless \<and> range_order headless [headless_file] \<and>
   packages headless = Some Map.empty \<and>
   made (files headless) headless_file =
     Some \<lparr>info_File = headless_file, Path = ''main.go'', PackagePath = []\<rparr> \<and>
   file_specs headless_file \<noteq> [] \<and> uniqueDefinitions headless \<noteq> None \<and>
   fst (ParseTypes ex_host [headless_file] headless) = NilDereference"
proof -
  have r: "reachable headless"
    unfolding headless_def by (intro reachable.collect reachable.new)
  have o: "range_order headless [headless_file]"
    by (simp add: range_order_def headless_def CollectAstFile_def NewPackagesDefinitions_def)
  have p: "packages headless = Some Map.empty"
    by (simp add: headless_def CollectAstFile_def NewPackagesDefinitions_def)
  have f: "made (files headless) headless_file =
     Some \<lparr>info_File = headless_file, Path = ''main.go'', PackagePath = []\<rparr>"
    by (simp add: headless_def CollectAstFile_def NewPackagesDefinitions_def)
  have s: "file_specs headless_file \<noteq> []"
    by (simp add: file_specs_def decl_specs_def spec_specs_def headless_file_def type_decl_def)
  have i: "uniqueDefinitions headless \<noteq> None"
    by (simp add: headless_def CollectAstFile_def NewPackagesDefinitions_def)
  have e: "PackagePath \<lparr>info_File = headless_file, Path = ''main.go'', PackagePath = []\<rparr> = []"
    by simp
  from harvest_needs_package_paths [OF r o, of "''main.go''" headless_file ex_host] f s e i
  have "fst (ParseTypes ex_host [headless_file] headless) = NilDereference"
    by blast
  with r o p f s i show ?thesis by blast
qed

section \<open>Resolution of dotted references\<close>

lemma strings_Split_not_Nil: "strings_Split s sep \<noteq> []"
  by (induction s) (auto split: list.splits)

lemma strings_Split_dotted:
  "sep \<in> set s \<Longrightarrow> \<exists>p0 p1 rest. strings_Split s sep = p0 # p1 # rest"
proof (induction s)
  case Nil
  then show ?case by simp
next
  case (Cons c cs)
  show ?case
  proof (cases "c = sep")
    case True
    then show ?thesis
      using strings_Split_not_Nil [of cs sep] by (cases "strings_Split cs sep") auto
  next
    case False
    with Cons obtain p0 p1 rest where "strings_Split cs sep = p0 # p1 # rest" by auto
    with False show ?thesis by simp
  qed
qed

lemma Split_parts:
  assumes "strings_ContainsRune typeName CHR ''.''"
  shows "\<exists>rest. strings_Split typeName CHR ''.'' = first_part typeName # second_part typeName # rest"
  using strings_Split_dotted [of "CHR ''.''" typeName] assms
  by (auto simp: strings_ContainsRune_def first_part_def second_part_def)

lemma match_imports_index [simp]:
  "match_imports (pkgs\<lparr>uniqueDefinitions := u\<rparr>) q imps b = match_imports pkgs q imps b"
  by (induction imps arbitrary: b) (auto simp: Let_def split: option.splits)

lemma findPackagePathFromImports_index [simp]:
  "findPackagePathFromImports (pkgs\<lparr>uniqueDefinitions := u\<rparr>) q file =
     findPackagePathFromImports pkgs q file"
  by (simp add: findPackagePathFromImports_def Let_def cong: option.case_cong sum.case_cong)

lemma findTypeSpec_index [simp]:
  "findTypeSpec (pkgs\<lparr>uniqueDefinitions := u\<rparr>) p n = findTypeSpec pkgs p n"
  by (simp add: findTypeSpec_def)

lemma find_qualified_index [simp]:
  "find_qualified (pkgs\<lparr>uniqueDefinitions := u\<rparr>) p0 p1 f = find_qualified pkgs p0 p1 f"
  by (simp add: find_qualified_def file_PackagePath_def Let_def cong: option.case_cong go.case_cong if_cong)

lemma FindTypeSpec_dotted:
  assumes "strings_ContainsRune typeName CHR ''.''" and "\<not> IsGolangPrimitiveType H typeName"
  shows "FindTypeSpec H typeName (Some f) pkgs =
     (case (if \<not> list_ex (\<lambda>pkg. imp_Name pkg = Some (first_part typeName)) (file_Imports f)
            then made (uniqueDefinitions pkgs) typeName else None) of
        Some typeDef \<Rightarrow> Ret (Some typeDef)
      | None \<Rightarrow> find_qualified pkgs (first_part typeName) (second_part typeName) f)"
proof -
  from Split_parts [OF assms(1)] obtain rest
    where "strings_Split typeName CHR ''.'' = first_part typeName # second_part typeName # rest"
    by blast
  with assms show ?thesis
    by (simp add: FindTypeSpec_def isAliasPkgName_def)
qed

text \<open>
  C5. A dotted reference that is not a primitive name, resolved in a context unit: when
  the qualifier is not the declared name of any import of the unit, an entry of the global
  index under the whole reference is returned, whatever the imports, the store and the
  package registry hold; when the qualifier is the declared name of an import, the index
  plays no part in the result.
\<close>

theorem dotted_reference_shortcut:
  assumes "strings_ContainsRune typeName CHR ''.''" and "\<not> IsGolangPrimitiveType H typeName"
  shows "(isAliasPkgName (Some f) (first_part typeName) = Ret False \<longrightarrow>
            made (uniqueDefinitions pkgs) typeName = Some d \<longrightarrow>
            FindTypeSpec H typeName (Some f) pkgs = Ret (Some d)) \<and>
         (isAliasPkgName (Some f) (first_part typeName) = Ret False \<longrightarrow>
            made (uniqueDefinitions pkgs) typeName = None \<longrightarrow>
            FindTypeSpec H typeName (Some f) pkgs =
              find_qualified pkgs (first_part typeName) (second_part typeName) f) \<and>
         (isAliasPkgName (Some f) (first_part typeName) = Ret True \<longrightarrow>
            FindTypeSpec H typeName (Some f) pkgs =
              find_qualified pkgs (first_part typeName) (second_part typeName) f \<and>
            FindTypeSpec H typeName (Some f) (pkgs\<lparr>uniqueDefinitions := u\<rparr>) =
              FindTypeSpec H typeName (Some f) pkgs)"
  using assms by (simp add: FindTypeSpec_dotted isAliasPkgName_def)

lemma index_harvested_one:
  "made (uniqueDefinitions harvested_one) ''models.User'' = Some userA"
  by (simp add: harvested_one_def one_package_def modelsA_alt_file_def model_defs ex_defs
        ex_host_def)

theorem dotted_reference_shortcut_witness:
  "strings_ContainsRune ''models.User'' CHR ''.'' \<and>
   \<not> IsGolangPrimitiveType ex_host ''models.User'' \<and>
   isAliasPkgName (Some ctxA_file) (first_part ''models.User'') = Ret False \<and>
   made (uniqueDefinitions harvested_one) ''models.User'' = Some userA \<and>
   FindTypeSpec ex_host ''models.User'' (Some ctxA_file) harvested_one = Ret (Some userA) \<and>
   isAliasPkgName (Some shadow_file) (first_part ''models.User'') = Ret True \<and>
   FindTypeSpec ex_host ''models.User'' (Some shadow_file) (harvested_one\<lparr>uniqueDefinitions := None\<rparr>) =
     FindTypeSpec ex_host ''models.User'' (Some shadow_file) harvested_one"
proof -
  have c: "strings_ContainsRune ''models.User'' CHR ''.''"
    by (simp add: strings_ContainsRune_def)
  have p: "\<not> IsGolangPrimitiveType ex_host ''models.User''"
    by (simp add: ex_host_def)
  have a: "isAliasPkgName (Some ctxA_file) (first_part ''models.User'') = Ret False"
    by (simp add: isAliasPkgName_def first_part_def ex_defs)
  have b: "isAliasPkgName (Some shadow_file) (first_part ''models.User'') = Ret True"
    by (simp add: isAliasPkgName_def first_part_def shadow_file_def ex_defs)
  from dotted_reference_shortcut [OF c p, of ctxA_file harvested_one userA]
    dotted_reference_shortcut [OF c p, of shadow_file harvested_one _ None]
    c p a b index_harvested_one
  show ?thesis by blast
qed

section \<open>From the qualifier to the package path\<close>

lemma match_imports_find:
  "match_imports pkgs q imps b =
     (case find (first_pass_match pkgs q) imps of
        Some imp \<Rightarrow> Inl (import_path imp)
      | None \<Rightarrow> Inr (b \<or> list_ex (\<lambda>imp. imp_Name imp = Some ''_'') imps))"
  by (induction imps arbitrary: b)
     (auto simp: first_pass_match_def registered_as_def import_path_def Let_def made_def
        split: option.splits)

lemma match_anonymous_find:
  "packages pkgs = Some ps \<Longrightarrow>
   match_anonymous ps q imps =
     (case find (anonymous_match pkgs q) imps of
        Some imp \<Rightarrow> Some (import_path imp)
      | None \<Rightarrow> None)"
  by (induction imps)
     (auto simp: anonymous_match_def registered_as_def import_path_def Let_def
        split: option.splits)

lemma find_anonymous_nil:
  "packages pkgs = None \<Longrightarrow> find (anonymous_match pkgs q) imps = None"
  by (simp add: find_None_iff anonymous_match_def registered_as_def)

lemma find_anonymous_none:
  "\<not> list_ex (\<lambda>imp. imp_Name imp = Some ''_'') imps \<Longrightarrow> find (anonymous_match pkgs q) imps = None"
  by (auto simp: find_None_iff anonymous_match_def list_ex_iff)

lemma findPackagePathFromImports_in_order:
  "findPackagePathFromImports pkgs pkgName (Some f) =
     resolve_in_order pkgs (qualifier_of pkgName) (file_Imports f)"
proof (cases "packages pkgs")
  case None
  then show ?thesis
    by (simp add: findPackagePathFromImports_def resolve_in_order_def qualifier_of_def
          match_imports_find find_anonymous_nil Let_def split: option.splits)
next
  case (Some ps)
  then show ?thesis
    by (simp add: findPackagePathFromImports_def resolve_in_order_def qualifier_of_def
          match_imports_find match_anonymous_find [OF Some] find_anonymous_none Let_def
          split: option.splits)
qed

text \<open>
  C4, as the source has it. The first loop takes the imports in the order of the file and
  returns on the first one that is either a named import whose name is the qualifier or an
  unnamed import of a path the registry records under the qualifier as short name: a named
  import comes before the unnamed imports after it, not before those in front of it. Only
  when the first loop returns on none does the first anonymous import of a path recorded
  under the qualifier give the path; with no match the path is empty.
\<close>

theorem import_scan_order:
  "findPackagePathFromImports pkgs pkgName (Some f) =
     resolve_in_order pkgs (qualifier_of pkgName) (file_Imports f)"
  by (rule findPackagePathFromImports_in_order)

lemmas resolve_defs = resolve_in_order_def resolve_by_precedence_def first_pass_match_def
  anonymous_match_def registered_as_def import_path_def qualifier_of_def strings_Trim_def
  strings_ContainsRune_def

text \<open>An unnamed import of \<^verbatim>\<open>a/models\<close> stands in front of an import named
  \<^verbatim>\<open>models\<close>: the source resolves the qualifier to the former, the precedence rule to the
  latter.\<close>

theorem import_scan_order_counterexample:
  "findPackagePathFromImports two_models ''models'' (Some shadow_file) = ''a/models'' \<and>
   resolve_by_precedence two_models ''models'' (file_Imports shadow_file) = ''b/other''"
  by (simp add: findPackagePathFromImports_def resolve_defs shadow_file_def model_defs ex_defs)

text \<open>
  C10, as the source has it. A path that \<open>findPackagePathFromImports\<close> returns is the
  path of an import of the unit that either is declared under a name equal to the
  qualifier, which the first loop matches by name without a look at the registry (the
  blank name \<^verbatim>\<open>_\<close> included, when the qualifier is \<^verbatim>\<open>_\<close>), or is an unnamed or anonymous
  import of a path the package registry holds, with the qualifier as the recorded short
  name. The short name is read from the package record, never from the text of the path:
  when the registry holds none of the paths of the imports that are not declared under
  the qualifier, only a match by name gives a path.
\<close>

theorem short_name_from_registry:
  "(findPackagePathFromImports pkgs pkgName (Some f) \<noteq> [] \<longrightarrow>
      (\<exists>imp\<in>set (file_Imports f).
         import_path imp = findPackagePathFromImports pkgs pkgName (Some f) \<and>
         (imp_Name imp = Some (qualifier_of pkgName) \<or>
          (imp_Name imp = None \<or> imp_Name imp = Some ''_'') \<and>
          (\<exists>pd. made (packages pkgs) (import_path imp) = Some pd \<and>
                pd_Name pd = qualifier_of pkgName)))) \<and>
   ((\<forall>imp\<in>set (file_Imports f). imp_Name imp \<noteq> Some (qualifier_of pkgName) \<longrightarrow>
        import_path imp \<notin> dom (made (packages pkgs))) \<longrightarrow>
      findPackagePathFromImports pkgs pkgName (Some f) = [] \<or>
      (\<exists>imp\<in>set (file_Imports f). imp_Name imp = Some (qualifier_of pkgName) \<and>
         import_path imp = findPackagePathFromImports pkgs pkgName (Some f)))"
proof -
  let ?q = "qualifier_of pkgName" and ?imps = "file_Imports f"
  let ?r = "findPackagePathFromImports pkgs pkgName (Some f)"
  have matched: "imp_Name imp = Some ?q \<or>
      (imp_Name imp = None \<or> imp_Name imp = Some ''_'') \<and>
      (\<exists>pd. made (packages pkgs) (import_path imp) = Some pd \<and> pd_Name pd = ?q)"
    if "first_pass_match pkgs ?q imp \<or> anonymous_match pkgs ?q imp" for imp
    using that
    by (auto simp: first_pass_match_def anonymous_match_def registered_as_def split: option.splits)
  have found: "imp \<in> set ?imps \<and> P imp" if "find P ?imps = Some imp" for P imp
    using that by (auto simp: find_Some_iff)
  have resolved: "\<exists>imp\<in>set ?imps. import_path imp = ?r \<and>
      (imp_Name imp = Some ?q \<or>
       (imp_Name imp = None \<or> imp_Name imp = Some ''_'') \<and>
       (\<exists>pd. made (packages pkgs) (import_path imp) = Some pd \<and> pd_Name pd = ?q))"
    if ne: "?r \<noteq> []"
  proof -
    from ne obtain imp where "imp \<in> set ?imps"
      and "first_pass_match pkgs ?q imp \<or> anonymous_match pkgs ?q imp"
      and "import_path imp = ?r"
      using found [of "first_pass_match pkgs ?q"] found [of "anonymous_match pkgs ?q"]
      by (auto simp: findPackagePathFromImports_in_order resolve_in_order_def split: option.splits)
    with matched [of imp] show ?thesis by blast
  qed
  have by_name: "?r = [] \<or> (\<exists>imp\<in>set ?imps. imp_Name imp = Some ?q \<and> import_path imp = ?r)"
    if un: "\<forall>imp\<in>set ?imps. imp_Name imp \<noteq> Some ?q \<longrightarrow>
        import_path imp \<notin> dom (made (packages pkgs))"
  proof (cases "?r = []")
    case True
    then show ?thesis by simp
  next
    case False
    from resolved [OF False] obtain imp where imp: "imp \<in> set ?imps" "import_path imp = ?r"
      and m: "imp_Name imp = Some ?q \<or>
       (imp_Name imp = None \<or> imp_Name imp = Some ''_'') \<and>
       (\<exists>pd. made (packages pkgs) (import_path imp) = Some pd \<and> pd_Name pd = ?q)"
      by blast
    have "imp_Name imp = Some ?q"
    proof (rule ccontr)
      assume n: "imp_Name imp \<noteq> Some ?q"
      with un imp(1) have "import_path imp \<notin> dom (made (packages pkgs))" by blast
      with m n show False by (auto simp: domIff)
    qed
    with imp show ?thesis by blast
  qed
  from resolved by_name show ?thesis by blast
qed

theorem short_name_from_registry_witness:
  "findPackagePathFromImports two_models ''models'' (Some blank_file) = ''b/models'' \<and>
   blank_file = \<lparr>file_ptr = 10, file_Name = ''handlers'',
     file_Imports = [named_import ''_'' ''b/models''], file_Decls = []\<rparr> \<and>
   registered_as two_models ''b/models'' ''models'' \<and>
   list_all (\<lambda>imp. imp_Name imp \<noteq> Some (qualifier_of ''models'') \<and>
               import_path imp \<notin> dom (made (packages two_models)))
     (file_Imports stray_file) \<and>
   findPackagePathFromImports two_models ''models'' (Some stray_file) = []"
proof -
  have r: "findPackagePathFromImports two_models ''models'' (Some blank_file) = ''b/models''"
    by (simp add: findPackagePathFromImports_def blank_file_def resolve_defs model_defs ex_defs)
  have g: "registered_as two_models ''b/models'' ''models''"
    by (simp add: resolve_defs model_defs ex_defs)
  have a: "\<forall>imp\<in>set (file_Imports stray_file). imp_Name imp \<noteq> Some (qualifier_of ''models'')"
    by (simp add: stray_file_def resolve_defs ex_defs)
  have u: "\<forall>imp\<in>set (file_Imports stray_file). import_path imp \<notin> dom (made (packages two_models))"
    by (simp add: stray_file_def resolve_defs model_defs ex_defs)
  from short_name_from_registry [of two_models "''models''" stray_file] a u
  have e: "findPackagePathFromImports two_models ''models'' (Some stray_file) = []"
    by blast
  from a u have "list_all (\<lambda>imp. imp_Name imp \<noteq> Some (qualifier_of ''models'') \<and>
               import_path imp \<notin> dom (made (packages two_models)))
     (file_Imports stray_file)"
    by (simp add: list_all_iff)
  with r g e show ?thesis
    by (simp add: blank_file_def)
qed

text \<open>The qualifier \<^verbatim>\<open>_\<close> resolves through an anonymous import of \<^verbatim>\<open>y/models\<close>, a path
  the registry does not hold: lines 153 to 155 return it by name.\<close>

theorem short_name_from_registry_counterexample:
  "named_import ''_'' ''y/models'' \<in> set (file_Imports stray_file) \<and>
   imp_Name (named_import ''_'' ''y/models'') = Some ''_'' \<and>
   import_path (named_import ''_'' ''y/models'') = ''y/models'' \<and>
   made (packages two_models) ''y/models'' = None \<and>
   findPackagePathFromImports two_models ''_'' (Some stray_file) = ''y/models''"
  by (simp add: findPackagePathFromImports_def stray_file_def resolve_defs model_defs ex_defs)

section \<open>The empty package path\<close>

lemma findTypeSpec_empty_path:
  "wf_registry pkgs \<Longrightarrow> findTypeSpec pkgs [] typeName = None"
  by (auto simp: wf_registry_def findTypeSpec_def made_def split: option.splits)

lemma find_qualified_returns:
  "made (files pkgs) f \<noteq> None \<Longrightarrow> \<exists>r. find_qualified pkgs p0 p1 f = Ret r"
  by (auto simp: find_qualified_def file_PackagePath_def Let_def split: option.splits)

lemma FindTypeSpec_returns:
  assumes "file = None \<or> (\<exists>f. file = Some f \<and> made (files pkgs) f \<noteq> None)"
  shows "\<exists>r. FindTypeSpec H typeName file pkgs = Ret r"
proof (cases "file")
  case None
  then show ?thesis by (simp add: FindTypeSpec_def)
next
  case (Some f)
  with assms have reg: "made (files pkgs) f \<noteq> None" by simp
  show ?thesis
  proof (cases "IsGolangPrimitiveType H typeName")
    case True
    then show ?thesis by (simp add: FindTypeSpec_def)
  next
    case prim: False
    show ?thesis
    proof (cases "strings_ContainsRune typeName CHR ''.''")
      case True
      with prim Some find_qualified_returns [OF reg] show ?thesis
        by (auto simp: FindTypeSpec_dotted split: option.splits)
    next
      case False
      with prim Some reg show ?thesis
        by (auto simp: FindTypeSpec_def file_PackagePath_def split: option.splits)
    qed
  qed
qed

text \<open>
  C6. The resolver is a composition of total functions: loops over the finite import
  list and map lookups, with no call back into itself. It returns a value whenever the
  context unit is absent or is a unit of the store. On a registry built by the exported
  operations no package is recorded under the empty path, so the lookup of any type name
  under the empty path finds nothing; and so a dotted reference that the index shortcut
  does not answer, whose qualifier matches no import, whose unit imposes no package path
  of its own and for which the pseudo-package has no definition, resolves to not-found.
\<close>

theorem empty_path_not_found:
  assumes "reachable pkgs"
  shows "findTypeSpec pkgs [] typeName = None \<and>
         (strings_ContainsRune ref CHR ''.'' \<longrightarrow> \<not> IsGolangPrimitiveType H ref \<longrightarrow>
            (isAliasPkgName (Some f) (first_part ref) = Ret True \<or>
             made (uniqueDefinitions pkgs) ref = None) \<longrightarrow>
            findPackagePathFromImports pkgs (first_part ref) (Some f) = [] \<longrightarrow>
            (first_part ref = file_Name f \<longrightarrow> file_PackagePath pkgs f = Ret []) \<longrightarrow>
            (\<forall>pd. made (packages pkgs) (''pkg/'' @ first_part ref) = Some pd \<longrightarrow>
               TypeDefinitions pd (second_part ref) = None) \<longrightarrow>
            FindTypeSpec H ref (Some f) pkgs = Ret None) \<and>
         ((file = None \<or> (\<exists>f. file = Some f \<and> made (files pkgs) f \<noteq> None)) \<longrightarrow>
            (\<exists>r. FindTypeSpec H typeName file pkgs = Ret r))"
proof -
  have wf: "wf_registry pkgs"
    using assms by (rule reachable_wf)
  have empty: "findTypeSpec pkgs [] n = None" for n
    using wf by (rule findTypeSpec_empty_path)
  have qual: "find_qualified pkgs (first_part ref) (second_part ref) f = Ret None"
    if "findPackagePathFromImports pkgs (first_part ref) (Some f) = []"
      and "first_part ref = file_Name f \<longrightarrow> file_PackagePath pkgs f = Ret []"
      and "\<forall>pd. made (packages pkgs) (''pkg/'' @ first_part ref) = Some pd \<longrightarrow>
               TypeDefinitions pd (second_part ref) = None"
    using that empty by (auto simp: find_qualified_def split: option.splits)
  have dotted: "FindTypeSpec H ref (Some f) pkgs = Ret None"
    if "strings_ContainsRune ref CHR ''.''" and "\<not> IsGolangPrimitiveType H ref"
      and "isAliasPkgName (Some f) (first_part ref) = Ret True \<or>
             made (uniqueDefinitions pkgs) ref = None"
      and "findPackagePathFromImports pkgs (first_part ref) (Some f) = []"
      and "first_part ref = file_Name f \<longrightarrow> file_PackagePath pkgs f = Ret []"
      and "\<forall>pd. made (packages pkgs) (''pkg/'' @ first_part ref) = Some pd \<longrightarrow>
               TypeDefinitions pd (second_part ref) = None"
    using that(1,2,3) qual [OF that(4,5,6)]
    by (auto simp: FindTypeSpec_dotted isAliasPkgName_def)
  from empty [of typeName] dotted FindTypeSpec_returns [of "file" pkgs H typeName]
  show ?thesis by blast
qed

theorem empty_path_not_found_witness:
  "reachable two_models \<and> findTypeSpec two_models [] ''User'' = None \<and>
   strings_ContainsRune ''audit.Entry'' CHR ''.'' \<and>
   \<not> IsGolangPrimitiveType ex_host ''audit.Entry'' \<and>
   made (uniqueDefinitions two_models) ''audit.Entry'' = None \<and>
   findPackagePathFromImports two_models (first_part ''audit.Entry'') (Some ctxA_file) = [] \<and>
   first_part ''audit.Entry'' \<noteq> file_Name ctxA_file \<and>
   made (packages two_models) (''pkg/'' @ first_part ''audit.Entry'') = None \<and>
   made (files two_models) ctxA_file \<noteq> None \<and>
   FindTypeSpec ex_host ''audit.Entry'' (Some ctxA_file) two_models = Ret None"
proof -
  have c: "strings_ContainsRune ''audit.Entry'' CHR ''.''"
    by (simp add: strings_ContainsRune_def)
  have p: "\<not> IsGolangPrimitiveType ex_host ''audit.Entry''"
    by (simp add: ex_host_def)
  have u: "made (uniqueDefinitions two_models) ''audit.Entry'' = None"
    by (simp add: model_defs ex_defs)
  have i: "findPackagePathFromImports two_models (first_part ''audit.Entry'') (Some ctxA_file) = []"
    by (simp add: findPackagePathFromImports_def first_part_def resolve_defs model_defs ex_defs)
  have s: "first_part ''audit.Entry'' \<noteq> file_Name ctxA_file"
    by (simp add: first_part_def ex_defs)
  have g: "made (packages two_models) (''pkg/'' @ first_part ''audit.Entry'') = None"
    by (simp add: first_part_def model_defs ex_defs)
  have r: "made (files two_models) ctxA_file \<noteq> None"
    by (simp add: model_defs ex_defs)
  from empty_path_not_found [OF reachable_two_models, of "''User''" "''audit.Entry''" ex_host ctxA_file]
    c p u i s g r
  show ?thesis using reachable_two_models by auto
qed

section \<open>The index along the pass\<close>

lemma register_def_index:
  assumes "register_def d pkgs = Inr pkgs'"
  shows "made (uniqueDefinitions pkgs') =
     (made (uniqueDefinitions pkgs))
       (FullName d := key_step d (made (uniqueDefinitions pkgs) (FullName d)))"
  using assms
  by (auto simp: register_def_def write_local_Inr key_step_def Let_def
        split: option.splits if_splits)


lemma register_def_covered:
  assumes "covered pkgs d"
  shows "register_def d pkgs = Inr pkgs"
proof -
  from assms obtain uniq e where "uniqueDefinitions pkgs = Some uniq"
    "uniq (FullName d) = Some e" "PkgPath d = PkgPath e"
    by (cases "uniqueDefinitions pkgs") (auto simp: covered_def split: option.splits)
  then show ?thesis by (rule register_def_same_path)
qed

lemma loop_covered:
  "\<forall>d\<in>set ds. covered pkgs d \<Longrightarrow> range_loop register_def ds pkgs = Inr pkgs"
  by (induction ds) (simp_all add: register_def_covered)

lemma register_def_non_conflicting:
  assumes "register_def d pkgs = Inr pkgs'" and "non_conflicting pkgs D" and "d \<in> set D"
  shows "non_conflicting pkgs' D \<and> covered pkgs' d \<and>
         (\<forall>c. covered pkgs c \<longrightarrow> covered pkgs' c)"
proof -
  let ?u = "made (uniqueDefinitions pkgs)" and ?u' = "made (uniqueDefinitions pkgs')"
  let ?k = "FullName d"
  have among: "PkgPath a = PkgPath b" if "a \<in> set D" "b \<in> set D" "FullName a = FullName b" for a b
    using assms(2) that unfolding non_conflicting_def by blast
  have held: "PkgPath a = PkgPath e" if "a \<in> set D" "?u (FullName a) = Some e" for a e
    using assms(2) that unfolding non_conflicting_def by blast
  have other: "?u' k = ?u k" if "k \<noteq> ?k" for k
    using register_def_index [OF assms(1)] that by simp
  have here: "?u' ?k = (case ?u ?k of None \<Rightarrow> Some d | Some e \<Rightarrow> Some e)"
  proof (cases "?u ?k")
    case None
    then show ?thesis
      using register_def_index [OF assms(1)] by (simp add: key_step_def)
  next
    case (Some e)
    with held [OF assms(3)] have "PkgPath d = PkgPath e" by simp
    with Some show ?thesis
      using register_def_index [OF assms(1)] by (simp add: key_step_def)
  qed
  have held': "PkgPath a = PkgPath e" if a: "a \<in> set D" and e: "?u' (FullName a) = Some e" for a e
  proof (cases "FullName a = ?k")
    case True
    show ?thesis
    proof (cases "?u ?k")
      case None
      with here e True have "e = d" by simp
      with among [OF a assms(3) True] show ?thesis by simp
    next
      case (Some e0)
      with here e True have "?u (FullName a) = Some e" by simp
      with held [OF a] show ?thesis by simp
    qed
  next
    case False
    with other e have "?u (FullName a) = Some e" by simp
    with held [OF a] show ?thesis by simp
  qed
  have nc: "non_conflicting pkgs' D"
    unfolding non_conflicting_def using among held' by blast
  have cov: "covered pkgs' c" if c: "covered pkgs c" for c
  proof (cases "FullName c = ?k")
    case True
    with c here show ?thesis
      by (cases "?u ?k") (simp_all add: covered_def)
  next
    case False
    with c other show ?thesis by (simp add: covered_def)
  qed
  have "covered pkgs' d"
  proof (cases "?u ?k")
    case None
    with here show ?thesis by (simp add: covered_def)
  next
    case (Some e)
    with here held [OF assms(3)] show ?thesis by (simp add: covered_def)
  qed
  with nc cov show ?thesis by blast
qed

lemma loop_non_conflicting:
  "range_loop register_def ds pkgs = Inr pkgs' \<Longrightarrow> non_conflicting pkgs D \<Longrightarrow> set ds \<subseteq> set D \<Longrightarrow>
     non_conflicting pkgs' D \<and> (\<forall>d\<in>set ds. covered pkgs' d) \<and>
     (\<forall>c. covered pkgs c \<longrightarrow> covered pkgs' c)"
proof (induction ds arbitrary: pkgs)
  case Nil
  then show ?case by simp
next
  case (Cons d ds)
  from Cons.prems(1) obtain p1 where p1: "register_def d pkgs = Inr p1"
    and rest: "range_loop register_def ds p1 = Inr pkgs'"
    by (auto split: sum.splits)
  from Cons.prems(3) have d: "d \<in> set D" and ds: "set ds \<subseteq> set D" by auto
  note s1 = register_def_non_conflicting [OF p1 Cons.prems(2) d]
  from s1 have nc1: "non_conflicting p1 D" by blast
  note s2 = Cons.IH [OF rest nc1 ds]
  from s1 s2 show ?case by auto
qed

lemma harvest_defs_set:
  "files pkgs' = files pkgs \<Longrightarrow> set order' = set order \<Longrightarrow>
     set (harvest_defs pkgs' order') = set (harvest_defs pkgs order)"
  by (auto simp: harvest_defs_member)

text \<open>
  C8. Over input without conflict, a second pass over the same collection, in whatever
  order the second range takes the units, returns normally and leaves the whole registry
  as the first pass left it: every declaration is skipped at line 105. The local maps of
  all package records are therefore the same.
\<close>

theorem harvest_idempotent:
  assumes "range_order pkgs order" and "non_conflicting pkgs (harvest_defs pkgs order)"
    and "ParseTypes H order pkgs = (Parsed parsedSchemas, pkgs1)"
    and "range_order pkgs1 order2"
  shows "(\<exists>parsedSchemas2. ParseTypes H order2 pkgs1 = (Parsed parsedSchemas2, pkgs1)) \<and>
         packages (snd (ParseTypes H order2 pkgs1)) = packages pkgs1 \<and>
         findTypeSpec (snd (ParseTypes H order2 pkgs1)) pkgPath typeName =
           findTypeSpec pkgs1 pkgPath typeName"
proof -
  let ?ds = "harvest_defs pkgs order"
  from assms(3) have loop: "range_loop register_def ?ds pkgs = Inr pkgs1"
    by (auto simp: ParseTypes_flat loop_not_Parsed split: sum.splits)
  then have f: "files pkgs1 = files pkgs"
    by (rule loop_files)
  with assms(1,4) have "set order2 = set order"
    by (simp add: range_order_def)
  with f have same: "set (harvest_defs pkgs1 order2) = set ?ds"
    by (rule harvest_defs_set)
  from loop_non_conflicting [OF loop assms(2)] have "\<forall>d\<in>set ?ds. covered pkgs1 d"
    by simp
  with same have "\<forall>d\<in>set (harvest_defs pkgs1 order2). covered pkgs1 d"
    by simp
  then have "range_loop register_def (harvest_defs pkgs1 order2) pkgs1 = Inr pkgs1"
    by (rule loop_covered)
  then have "ParseTypes H order2 pkgs1 =
      (Parsed (harvest_schemas H (harvest_defs pkgs1 order2) []), pkgs1)"
    by (simp add: ParseTypes_flat)
  then show ?thesis by simp
qed

theorem harvest_idempotent_witness:
  "range_order one_package [modelsA_file, modelsA_alt_file] \<and>
   non_conflicting one_package (harvest_defs one_package [modelsA_file, modelsA_alt_file]) \<and>
   ParseTypes ex_host [modelsA_file, modelsA_alt_file] one_package = (Parsed [], harvested_one) \<and>
   range_order harvested_one [modelsA_alt_file, modelsA_file] \<and>
   (\<exists>parsedSchemas2.
      ParseTypes ex_host [modelsA_alt_file, modelsA_file] harvested_one =
        (Parsed parsedSchemas2, harvested_one)) \<and>
   findTypeSpec (snd (ParseTypes ex_host [modelsA_alt_file, modelsA_file] harvested_one))
     ''a/models'' ''User'' = findTypeSpec harvested_one ''a/models'' ''User''"
proof -
  have o: "range_order one_package [modelsA_file, modelsA_alt_file]"
    by (auto simp: range_order_def one_package_def modelsA_alt_file_def model_defs ex_defs)
  have d: "harvest_defs one_package [modelsA_file, modelsA_alt_file] = [userA, userA_alt]"
    by (simp add: harvest_defs_def file_defs_def file_specs_def decl_specs_def spec_specs_def
          one_package_def modelsA_alt_file_def userA_alt_def model_defs ex_defs)
  have n: "non_conflicting one_package (harvest_defs one_package [modelsA_file, modelsA_alt_file])"
    unfolding d
    by (simp add: non_conflicting_def one_package_def userA_alt_def modelsA_alt_file_def
          model_defs ex_defs)
  have "fst (ParseTypes ex_host [modelsA_file, modelsA_alt_file] one_package) = Parsed []"
    by (simp add: one_package_def modelsA_alt_file_def model_defs ex_defs ex_host_def)
  then have p: "ParseTypes ex_host [modelsA_file, modelsA_alt_file] one_package =
      (Parsed [], harvested_one)"
    by (simp add: harvested_one_def prod_eq_iff)
  have "files harvested_one = files one_package"
    using p by (auto simp: ParseTypes_flat loop_not_Parsed split: sum.splits dest: loop_files)
  with o have o2: "range_order harvested_one [modelsA_alt_file, modelsA_file]"
    by (auto simp: range_order_def)
  from harvest_idempotent [OF o n p o2, of "''a/models''" "''User''"] o n p o2
  show ?thesis by blast
qed

section \<open>Two packages with one short name\<close>



lemma range_loop_ConsD:
  "range_loop body (x # xs) s = Inr s' \<Longrightarrow>
     \<exists>s1. body x s = Inr s1 \<and> range_loop body xs s1 = Inr s'"
  by (simp split: sum.splits)














section \<open>The entry under one key, over a whole pass\<close>

text \<open>A pass that returns leaves under each key what the declarations of that key, taken
  in the order of the visit, make of the entry the index held before: an insertion when
  the key is absent, nothing on an entry of the same owning package path, a deletion on
  an entry of another. An odd run of declarations of pairwise different packages under
  one key therefore ends with the key in the index.\<close>

lemma loop_index_trace:
  "range_loop register_def ds pkgs = Inr pkgs' \<Longrightarrow>
     made (uniqueDefinitions pkgs') k =
       fold key_step (filter (\<lambda>d. FullName d = k) ds) (made (uniqueDefinitions pkgs) k)"
proof (induction ds arbitrary: pkgs)
  case Nil
  then show ?case by simp
next
  case (Cons d ds)
  from range_loop_ConsD [OF Cons.prems] obtain p1
    where p1: "register_def d pkgs = Inr p1"
      and rest: "range_loop register_def ds p1 = Inr pkgs'"
    by blast
  have "made (uniqueDefinitions p1) k =
      (if FullName d = k then key_step d (made (uniqueDefinitions pkgs) k)
       else made (uniqueDefinitions pkgs) k)"
    using register_def_index [OF p1] by auto
  with Cons.IH [OF rest] show ?case by simp
qed

lemma ParseTypes_index_trace:
  assumes "ParseTypes H order pkgs = (Parsed parsedSchemas, pkgs')"
  shows "made (uniqueDefinitions pkgs') k =
     fold key_step (filter (\<lambda>d. FullName d = k) (harvest_defs pkgs order))
       (made (uniqueDefinitions pkgs) k)"
proof -
  from assms have "range_loop register_def (harvest_defs pkgs order) pkgs = Inr pkgs'"
    by (auto simp: ParseTypes_flat loop_not_Parsed split: sum.splits)
  then show ?thesis by (rule loop_index_trace)
qed

end
